theory Spec2Isabelle
  imports Main "HOL-Library.Word"
begin

section \<open>JavaScript strings and the library functions the source calls\<close>

text \<open>
  A JavaScript string is a sequence of 16-bit code units. The source builds its result
  with string concatenation, \<^verbatim>\<open>String.prototype.replace\<close> with a global
  one-character pattern, \<^verbatim>\<open>Array.prototype.join\<close> and
  \<^verbatim>\<open>encodeURIComponent\<close>; the last one raises \<^verbatim>\<open>URIError\<close> on a string
  with an unpaired surrogate, so every function that reaches it returns a result of type
  \<open>error + jsstring\<close>.
\<close>

type_synonym codeunit = "16 word"

type_synonym jsstring = "codeunit list"

text \<open>An ASCII string literal of the source, as code units.\<close>

definition lit :: "string \<Rightarrow> jsstring" where
  "lit s = map (\<lambda>c. of_nat (of_char c)) s"

datatype error = URIError | TypeError | Thrown

text \<open>
  \<^verbatim>\<open>xs + r\<close> where \<open>r\<close> is the rest of a computation that may already have
  raised.
\<close>

definition prepend :: "jsstring \<Rightarrow> error + jsstring \<Rightarrow> error + jsstring" where
  "prepend xs r = (case r of Inl e \<Rightarrow> Inl e | Inr ys \<Rightarrow> Inr (xs @ ys))"

subsection \<open>encodeURIComponent (ECMAScript, abstract operation Encode)\<close>

text \<open>
  The characters that \<^verbatim>\<open>encodeURIComponent\<close> leaves as they are: the ASCII
  letters, the decimal digits and \<^verbatim>\<open>- _ . ! ~ * ' ( )\<close>.
\<close>

definition uriUnescaped :: "codeunit \<Rightarrow> bool" where
  "uriUnescaped c \<longleftrightarrow>
     (0x41 \<le> c \<and> c \<le> 0x5A) \<or> (0x61 \<le> c \<and> c \<le> 0x7A) \<or> (0x30 \<le> c \<and> c \<le> 0x39) \<or>
     c = 0x2D \<or> c = 0x5F \<or> c = 0x2E \<or> c = 0x21 \<or> c = 0x7E \<or> c = 0x2A \<or>
     c = 0x27 \<or> c = 0x28 \<or> c = 0x29"

definition isLeadingSurrogate :: "codeunit \<Rightarrow> bool" where
  "isLeadingSurrogate c \<longleftrightarrow> 0xD800 \<le> c \<and> c \<le> 0xDBFF"

definition isTrailingSurrogate :: "codeunit \<Rightarrow> bool" where
  "isTrailingSurrogate c \<longleftrightarrow> 0xDC00 \<le> c \<and> c \<le> 0xDFFF"

text \<open>\<^verbatim>\<open>UTF16SurrogatePairToCodePoint\<close>.\<close>

definition surrogatePairToCodePoint :: "codeunit \<Rightarrow> codeunit \<Rightarrow> nat" where
  "surrogatePairToCodePoint lead trail =
     (unat lead - 0xD800) * 0x400 + (unat trail - 0xDC00) + 0x10000"

text \<open>The UTF-8 octets of a code point.\<close>

definition utf8 :: "nat \<Rightarrow> nat list" where
  "utf8 cp =
     (if cp < 0x80 then [cp]
      else if cp < 0x800 then [0xC0 + cp div 0x40, 0x80 + cp mod 0x40]
      else if cp < 0x10000 then
        [0xE0 + cp div 0x1000, 0x80 + cp div 0x40 mod 0x40, 0x80 + cp mod 0x40]
      else
        [0xF0 + cp div 0x40000, 0x80 + cp div 0x1000 mod 0x40,
         0x80 + cp div 0x40 mod 0x40, 0x80 + cp mod 0x40])"

text \<open>An uppercase hexadecimal digit, and an octet as \<^verbatim>\<open>%XX\<close>.\<close>

definition hexDigit :: "nat \<Rightarrow> codeunit" where
  "hexDigit n = (if n < 10 then 0x30 + of_nat n else 0x41 + of_nat (n - 10))"

definition pctOctet :: "nat \<Rightarrow> jsstring" where
  "pctOctet b = [0x25, hexDigit (b div 16), hexDigit (b mod 16)]"

definition pctCodePoint :: "nat \<Rightarrow> jsstring" where
  "pctCodePoint cp = concat (map pctOctet (utf8 cp))"

text \<open>
  The loop of Encode: a code unit of the unescaped set is copied; otherwise the code
  point at this position is read (one unit, or a surrogate pair), an unpaired surrogate
  raises \<^verbatim>\<open>URIError\<close>, and the octets of its UTF-8 encoding are written as
  \<^verbatim>\<open>%XX\<close>.
\<close>

fun encodeURIComponent :: "jsstring \<Rightarrow> error + jsstring" where
  "encodeURIComponent [] = Inr []"
| "encodeURIComponent (c # cs) =
     (if uriUnescaped c then prepend [c] (encodeURIComponent cs)
      else if isTrailingSurrogate c then Inl URIError
      else if isLeadingSurrogate c then
        (case cs of
           [] \<Rightarrow> Inl URIError
         | d # ds \<Rightarrow>
             if isTrailingSurrogate d
             then prepend (pctCodePoint (surrogatePairToCodePoint c d)) (encodeURIComponent ds)
             else Inl URIError)
      else prepend (pctCodePoint (unat c)) (encodeURIComponent cs))"

subsection \<open>replace, template literals, join\<close>

text \<open>
  \<^verbatim>\<open>s.replace(/\\/g, '\\\\')\<close>: every backslash becomes two backslashes.
  \<^verbatim>\<open>s.replace(/"/g, '\\"')\<close>: every double quote becomes a backslash and a double
  quote.
\<close>

definition replaceBackslash :: "jsstring \<Rightarrow> jsstring" where
  "replaceBackslash s = concat (map (\<lambda>c. if c = 0x5C then [0x5C, 0x5C] else [c]) s)"

definition replaceQuote :: "jsstring \<Rightarrow> jsstring" where
  "replaceQuote s = concat (map (\<lambda>c. if c = 0x22 then [0x5C, 0x22] else [c]) s)"

text \<open>\<^verbatim>\<open>export function quote(value) { return `"${value}"`; }\<close> on a string.\<close>

definition quote :: "jsstring \<Rightarrow> jsstring" where
  "quote v = [0x22] @ v @ [0x22]"

text \<open>\<^verbatim>\<open>Array.prototype.join\<close> on an array of strings.\<close>

fun join :: "jsstring \<Rightarrow> jsstring list \<Rightarrow> jsstring" where
  "join sep [] = []"
| "join sep [x] = x"
| "join sep (x # y # ys) = x @ sep @ join sep (y # ys)"

subsection \<open>Numbers and dates\<close>

text \<open>
  A value of type \<^verbatim>\<open>number\<close> is a double; its decimal text
  (\<^verbatim>\<open>Number.prototype.toString\<close>, also what \<^verbatim>\<open>join\<close> applies to a number) is not
  computed here: the type of numbers is a type variable \<open>'num\<close> and the conversion is
  the parameter \<open>numToString\<close> of every function that needs it.

  The numbers that the getters of a \<^verbatim>\<open>Date\<close> return are integers, or
  \<^verbatim>\<open>NaN\<close> for an invalid date; \<^verbatim>\<open>String(num)\<close> on them is decimal notation.
\<close>

datatype jsint = Num int | NaN

definition decDigit :: "nat \<Rightarrow> codeunit" where
  "decDigit d = 0x30 + of_nat d"

fun decimal :: "nat \<Rightarrow> jsstring" where
  "decimal n = (if n < 10 then [decDigit n] else decimal (n div 10) @ [decDigit (n mod 10)])"

declare decimal.simps [simp del]

fun String_jsint :: "jsint \<Rightarrow> jsstring" where
  "String_jsint (Num i) = (if i < 0 then 0x2D # decimal (nat (- i)) else decimal (nat i))"
| "String_jsint NaN = lit ''NaN''"

text \<open>\<^verbatim>\<open>num + 1\<close>.\<close>

fun plus1 :: "jsint \<Rightarrow> jsint" where
  "plus1 (Num i) = Num (i + 1)"
| "plus1 NaN = NaN"

text \<open>
  A \<^verbatim>\<open>Date\<close> is given by what its getters return: the calendar fields in local time
  and in UTC and the time of day in UTC (the month counted from 0). The relation between
  local time and UTC belongs to the host and is not modelled.
\<close>

record DateFields =
  fullYear :: int
  month :: int
  date :: int
  utcFullYear :: int
  utcMonth :: int
  utcDate :: int
  utcHours :: int
  utcMinutes :: int
  utcSeconds :: int
  utcMilliseconds :: int

datatype Date = InvalidDate | ValidDate DateFields

fun getter :: "(DateFields \<Rightarrow> int) \<Rightarrow> Date \<Rightarrow> jsint" where
  "getter f InvalidDate = NaN"
| "getter f (ValidDate d) = Num (f d)"

abbreviation "getFullYear \<equiv> getter fullYear"
abbreviation "getMonth \<equiv> getter month"
abbreviation "getDate \<equiv> getter date"
abbreviation "getUTCFullYear \<equiv> getter utcFullYear"
abbreviation "getUTCMonth \<equiv> getter utcMonth"
abbreviation "getUTCDate \<equiv> getter utcDate"
abbreviation "getUTCHours \<equiv> getter utcHours"
abbreviation "getUTCMinutes \<equiv> getter utcMinutes"
abbreviation "getUTCSeconds \<equiv> getter utcSeconds"
abbreviation "getUTCMilliseconds \<equiv> getter utcMilliseconds"

text \<open>The ranges of the fields of a valid date.\<close>

definition fieldsInRange :: "DateFields \<Rightarrow> bool" where
  "fieldsInRange d \<longleftrightarrow>
     0 \<le> month d \<and> month d \<le> 11 \<and> 1 \<le> date d \<and> date d \<le> 31 \<and>
     0 \<le> utcMonth d \<and> utcMonth d \<le> 11 \<and> 1 \<le> utcDate d \<and> utcDate d \<le> 31 \<and>
     0 \<le> utcHours d \<and> utcHours d \<le> 23 \<and> 0 \<le> utcMinutes d \<and> utcMinutes d \<le> 59 \<and>
     0 \<le> utcSeconds d \<and> utcSeconds d \<le> 59 \<and>
     0 \<le> utcMilliseconds d \<and> utcMilliseconds d \<le> 999"

section \<open>rsql-filter-expression.ts\<close>

subsection \<open>Values, operators and the expression\<close>

text \<open>
  The elements of an array value: the declared element types
  (\<^verbatim>\<open>string | number | boolean\<close>) and \<^verbatim>\<open>null\<close> and \<^verbatim>\<open>undefined\<close>, which
  \<^verbatim>\<open>build\<close> also handles.
\<close>

datatype 'num jselem =
  EString jsstring | ENumber 'num | EBoolean bool | ENull | EUndefined

text \<open>
  The values of the field \<^verbatim>\<open>value\<close>: the declared types, \<^verbatim>\<open>null\<close>, and
  \<open>JObject\<close> for any other value (a plain object, a function), which passes none of
  the tests of \<^verbatim>\<open>build\<close>.
\<close>

datatype 'num jsval =
  JString jsstring | JNumber 'num | JBoolean bool | JArray "'num jselem list" |
  JDate Date | JNull | JUndefined | JObject

text \<open>
  Modelled from the spec: the enumeration \<^verbatim>\<open>Operators\<close> of
  \<^verbatim>\<open>rsql-filter-operators.ts\<close> (missing), "one of a fixed enumeration" of seventeen
  members, which are the ones that \<^verbatim>\<open>build\<close> names in its \<^verbatim>\<open>switch\<close>.
\<close>

datatype Operators =
  Equal | NotEqual | Like | GreaterThan | GreaterThanEqualTo | LessThan | LessThanEqualTo |
  StartsWith | EndsWith | Contains | DoesNotContain | In | NotIn | IsEmpty | IsNotEmpty |
  IsNull | IsNotNull

text \<open>
  Modelled from the spec: the interface \<^verbatim>\<open>CustomOperator\<close> (its declaration is
  missing), "a custom operator object exposing a single capability: render(value,
  encodedValueString, shouldQuote) to string", which the source calls
  \<^verbatim>\<open>convertToRSQLString\<close>. An object is modelled as far as the source looks at it: its
  properties by name, each a method with that signature; a method of the caller may
  raise. A \<^verbatim>\<open>CustomOperator\<close> is an object that has the property
  \<^verbatim>\<open>convertToRSQLString\<close>.
\<close>

type_synonym 'num jsmethod = "'num jsval \<Rightarrow> jsstring \<Rightarrow> bool \<Rightarrow> error + jsstring"

datatype 'num jsobject = JSObject (props: "string \<Rightarrow> 'num jsmethod option")

text \<open>The constructor's argument \<^verbatim>\<open>operator\<close>: a member of the enumeration or an object.\<close>

datatype 'num oparg = OpEnum Operators | OpObject "'num jsobject"

text \<open>
  Modelled from the spec: the options of \<^verbatim>\<open>rsql-filter-expression-options.ts\<close>
  (missing), "configuration with recognized option \<^verbatim>\<open>includeTimestamp: boolean\<close>
  (default false)"; an options object without the property counts as one with
  \<^verbatim>\<open>false\<close>, since \<^verbatim>\<open>build\<close> only tests the property for truth.
\<close>

record RSQLFilterExpressionOptions =
  includeTimestamp :: bool

text \<open>
  The fields of the class; \<open>None\<close> is \<^verbatim>\<open>undefined\<close>. The constructor stores its
  argument in \<^verbatim>\<open>operator\<close> with an unchecked cast (\<^verbatim>\<open>operator as Operators\<close>), so
  the field holds whatever was passed. The field \<^verbatim>\<open>options\<close> holds an options object
  or nothing: the default of the constructor's parameter replaces \<^verbatim>\<open>undefined\<close> only,
  so a caller who passes \<^verbatim>\<open>null\<close> leaves \<^verbatim>\<open>null\<close> in the field, and the field
  is public; \<open>None\<close> in \<^verbatim>\<open>options\<close> is \<^verbatim>\<open>null\<close> or \<^verbatim>\<open>undefined\<close>.
\<close>

record 'num RSQLFilterExpression =
  field :: jsstring
  operator :: "'num oparg option"
  customOperator :: "'num jsobject option"
  "value" :: "'num jsval"
  options :: "RSQLFilterExpressionOptions option"

text \<open>\<^verbatim>\<open>'convertToRSQLString' in object\<close>.\<close>

definition instanceOfCustomOperator :: "'num jsobject \<Rightarrow> bool" where
  "instanceOfCustomOperator object \<longleftrightarrow> props object ''convertToRSQLString'' \<noteq> None"

text \<open>
  The default of the constructor's parameter \<^verbatim>\<open>options\<close>, the object
  \<^verbatim>\<open>{ includeTimestamp: false }\<close>: what the constructor receives when the caller
  passes no options.
\<close>

definition defaultOptions :: "RSQLFilterExpressionOptions option" where
  "defaultOptions = Some \<lparr>includeTimestamp = False\<rparr>"

text \<open>
  The constructor: \<^verbatim>\<open>typeof operator === 'object'\<close> holds of an object and of no
  member of the enumeration. The argument \<open>opts\<close> is the options object that was passed
  (\<open>defaultOptions\<close> when none was), or \<open>None\<close> when \<^verbatim>\<open>null\<close> was.
\<close>

definition new_RSQLFilterExpression ::
  "jsstring \<Rightarrow> 'num oparg \<Rightarrow> 'num jsval \<Rightarrow> RSQLFilterExpressionOptions option \<Rightarrow>
     'num RSQLFilterExpression"
where
  "new_RSQLFilterExpression fld opr val opts =
     (case opr of
        OpObject obj \<Rightarrow>
          if instanceOfCustomOperator obj
          then \<lparr>field = fld, operator = None, customOperator = Some obj,
                value = val, options = opts\<rparr>
          else \<lparr>field = fld, operator = Some opr, customOperator = None,
                value = val, options = opts\<rparr>
      | OpEnum _ \<Rightarrow>
          \<lparr>field = fld, operator = Some opr, customOperator = None,
           value = val, options = opts\<rparr>)"

subsection \<open>Dates: numberToString, buildDateString, buildTimestamp\<close>

text \<open>
  \<^verbatim>\<open>let s = String(num); while (s.length < digitCount) { s = '0' + s; } return s;\<close>
\<close>

function padLoop :: "jsstring \<Rightarrow> nat \<Rightarrow> jsstring" where
  "padLoop s digitCount = (if length s < digitCount then padLoop (0x30 # s) digitCount else s)"
  by pat_completeness auto
termination
  by (relation "measure (\<lambda>(s, digitCount). digitCount - length s)") auto

declare padLoop.simps [simp del]

definition numberToString :: "jsint \<Rightarrow> nat \<Rightarrow> jsstring" where
  "numberToString num digitCount = padLoop (String_jsint num) digitCount"

definition buildDateString :: "Date \<Rightarrow> bool \<Rightarrow> jsstring" where
  "buildDateString dateObject useUTC =
     (let year = (if useUTC then getUTCFullYear dateObject else getFullYear dateObject);
          month = (if useUTC then plus1 (getUTCMonth dateObject)
                   else plus1 (getMonth dateObject));
          date = (if useUTC then getUTCDate dateObject else getDate dateObject);
          yearString = numberToString year 4;
          monthString = numberToString month 2;
          dateString = numberToString date 2
      in join (lit ''-'') [yearString, monthString, dateString])"

definition buildTimestamp :: "Date \<Rightarrow> jsstring" where
  "buildTimestamp dateObject =
     (let hours = getUTCHours dateObject;
          minutes = getUTCMinutes dateObject;
          seconds = getUTCSeconds dateObject;
          millis = getUTCMilliseconds dateObject;
          hoursString = numberToString hours 2;
          minutesString = numberToString minutes 2;
          secondsString = numberToString seconds 2;
          millisString = numberToString millis 3
      in lit ''T'' @ join (lit '':'') [hoursString, minutesString, secondsString] @
         lit ''.'' @ millisString @ lit ''Z'')"

subsection \<open>build: the value string\<close>

text \<open>
  The text of a value inside a template literal (\<^verbatim>\<open>`"${value}"`\<close> in
  \<^verbatim>\<open>quote\<close>).
\<close>

fun templateText :: "('num \<Rightarrow> jsstring) \<Rightarrow> 'num jselem \<Rightarrow> jsstring" where
  "templateText numToString (EString s) = s"
| "templateText numToString (ENumber n) = numToString n"
| "templateText numToString (EBoolean b) = (if b then lit ''true'' else lit ''false'')"
| "templateText numToString ENull = lit ''null''"
| "templateText numToString EUndefined = lit ''undefined''"

text \<open>
  What the callback of \<^verbatim>\<open>map\<close> (lines 52 to 61) returns: the number itself, or a
  string.
\<close>

datatype 'num quoted = QNumber 'num | QString jsstring

definition asQString :: "error + jsstring \<Rightarrow> error + 'num quoted" where
  "asQString r = (case r of Inl e \<Rightarrow> Inl e | Inr s \<Rightarrow> Inr (QString s))"

fun quoteElement :: "('num \<Rightarrow> jsstring) \<Rightarrow> 'num jselem \<Rightarrow> error + 'num quoted" where
  "quoteElement numToString (ENumber n) = Inr (QNumber n)"
| "quoteElement numToString (EString i) =
     (let val = replaceQuote (replaceBackslash i)
      in asQString (encodeURIComponent (quote val)))"
| "quoteElement numToString i =
     asQString (encodeURIComponent (quote (templateText numToString i)))"

text \<open>\<^verbatim>\<open>Array.prototype.map\<close> with a callback that may raise.\<close>

fun mapRaising :: "('a \<Rightarrow> error + 'b) \<Rightarrow> 'a list \<Rightarrow> error + 'b list" where
  "mapRaising f [] = Inr []"
| "mapRaising f (x # xs) =
     (case f x of
        Inl e \<Rightarrow> Inl e
      | Inr y \<Rightarrow> (case mapRaising f xs of Inl e \<Rightarrow> Inl e | Inr ys \<Rightarrow> Inr (y # ys)))"

text \<open>The text that \<^verbatim>\<open>join\<close> gives an element of \<^verbatim>\<open>quotedValues\<close>.\<close>

fun quotedText :: "('num \<Rightarrow> jsstring) \<Rightarrow> 'num quoted \<Rightarrow> jsstring" where
  "quotedText numToString (QNumber n) = numToString n"
| "quotedText numToString (QString s) = s"

text \<open>
  Lines 36 to 75 of \<^verbatim>\<open>build\<close>: the pair \<^verbatim>\<open>(valueString, shouldQuote)\<close>. The tests
  (\<^verbatim>\<open>isString\<close>, \<^verbatim>\<open>isNumber\<close>, \<^verbatim>\<open>isBoolean\<close>, \<^verbatim>\<open>instanceof Array\<close>,
  \<^verbatim>\<open>instanceof Date\<close>, \<^verbatim>\<open>=== null\<close>) exclude one another, so the sequence of
  \<^verbatim>\<open>if\<close> statements is a case distinction; a value that passes none of them leaves
  the initial \<^verbatim>\<open>('', false)\<close>. The branch of a \<^verbatim>\<open>Date\<close> reads
  \<^verbatim>\<open>this.options.includeTimestamp\<close> (line 65), which raises \<^verbatim>\<open>TypeError\<close> when
  \<^verbatim>\<open>options\<close> is \<^verbatim>\<open>null\<close> or \<^verbatim>\<open>undefined\<close>; no other branch reads the options.
\<close>

fun buildValue ::
  "('num \<Rightarrow> jsstring) \<Rightarrow> RSQLFilterExpressionOptions option \<Rightarrow> 'num jsval \<Rightarrow>
     error + (jsstring \<times> bool)"
where
  "buildValue numToString opts (JString s) = Inr (replaceQuote (replaceBackslash s), True)"
| "buildValue numToString opts (JNumber n) = Inr (numToString n, False)"
| "buildValue numToString opts (JBoolean b) = Inr (if b then lit ''true'' else lit ''false'', False)"
| "buildValue numToString opts (JArray xs) =
     (case mapRaising (quoteElement numToString) (filter (\<lambda>i. i \<noteq> EUndefined) xs) of
        Inl e \<Rightarrow> Inl e
      | Inr quotedValues \<Rightarrow>
          Inr (join (lit '','') (map (quotedText numToString) quotedValues), False))"
| "buildValue numToString opts (JDate d) =
     (case opts of
        None \<Rightarrow> Inl TypeError
      | Some optionsObject \<Rightarrow>
          if includeTimestamp optionsObject
          then Inr (buildDateString d True @ buildTimestamp d, True)
          else Inr (buildDateString d False, True))"
| "buildValue numToString opts JNull = Inr (lit ''null'', False)"
| "buildValue numToString opts JUndefined = Inr ([], False)"
| "buildValue numToString opts JObject = Inr ([], False)"

subsection \<open>build: the operator\<close>

definition followedBy :: "error + jsstring \<Rightarrow> jsstring \<Rightarrow> error + jsstring" where
  "followedBy r ys = (case r of Inl e \<Rightarrow> Inl e | Inr xs \<Rightarrow> Inr (xs @ ys))"

text \<open>The \<^verbatim>\<open>switch\<close> of lines 82 to 135: what is appended after the field.\<close>

fun operatorSuffix :: "Operators \<Rightarrow> jsstring \<Rightarrow> bool \<Rightarrow> error + jsstring" where
  "operatorSuffix Equal valueString shouldQuote =
     prepend (lit ''=in='')
       (encodeURIComponent (if shouldQuote then quote valueString else valueString))"
| "operatorSuffix NotEqual valueString shouldQuote =
     prepend (lit ''!='')
       (encodeURIComponent (if shouldQuote then quote valueString else valueString))"
| "operatorSuffix Like valueString shouldQuote =
     prepend (lit ''=='') (encodeURIComponent (quote valueString))"
| "operatorSuffix GreaterThan valueString shouldQuote =
     followedBy (encodeURIComponent (lit ''>'')) valueString"
| "operatorSuffix GreaterThanEqualTo valueString shouldQuote =
     followedBy (encodeURIComponent (lit ''>='')) valueString"
| "operatorSuffix LessThan valueString shouldQuote =
     followedBy (encodeURIComponent (lit ''<'')) valueString"
| "operatorSuffix LessThanEqualTo valueString shouldQuote =
     followedBy (encodeURIComponent (lit ''<='')) valueString"
| "operatorSuffix StartsWith valueString shouldQuote =
     prepend (lit ''=='') (encodeURIComponent (quote (valueString @ lit ''*'')))"
| "operatorSuffix EndsWith valueString shouldQuote =
     prepend (lit ''=='') (encodeURIComponent (quote (lit ''*'' @ valueString)))"
| "operatorSuffix Contains valueString shouldQuote =
     prepend (lit ''=='') (encodeURIComponent (quote (lit ''*'' @ valueString @ lit ''*'')))"
| "operatorSuffix DoesNotContain valueString shouldQuote =
     prepend (lit ''!='') (encodeURIComponent (quote (lit ''*'' @ valueString @ lit ''*'')))"
| "operatorSuffix In valueString shouldQuote = Inr (lit ''=in=('' @ valueString @ lit '')'')"
| "operatorSuffix NotIn valueString shouldQuote = Inr (lit ''=out=('' @ valueString @ lit '')'')"
| "operatorSuffix IsEmpty valueString shouldQuote =
     prepend (lit ''=='') (encodeURIComponent (lit [CHR 0x22, CHR 0x22]))"
| "operatorSuffix IsNotEmpty valueString shouldQuote =
     prepend (lit ''!='') (encodeURIComponent (lit [CHR 0x22, CHR 0x22]))"
| "operatorSuffix IsNull valueString shouldQuote = Inr (lit ''==null'')"
| "operatorSuffix IsNotNull valueString shouldQuote = Inr (lit ''!=null'')"

text \<open>
  \<^verbatim>\<open>build\<close>: the value string first, then the field, then either the custom
  operator's \<^verbatim>\<open>convertToRSQLString\<close> (calling a property that is not there raises
  \<^verbatim>\<open>TypeError\<close>) or the \<^verbatim>\<open>switch\<close>, which appends nothing when
  \<^verbatim>\<open>operator\<close> is no member of the enumeration.
\<close>

definition build :: "('num \<Rightarrow> jsstring) \<Rightarrow> 'num RSQLFilterExpression \<Rightarrow> error + jsstring" where
  "build numToString this =
     (case buildValue numToString (options this) (value this) of
        Inl e \<Rightarrow> Inl e
      | Inr (valueString, shouldQuote) \<Rightarrow>
          prepend (field this)
            (case customOperator this of
               Some obj \<Rightarrow>
                 (case props obj ''convertToRSQLString'' of
                    None \<Rightarrow> Inl TypeError
                  | Some convertToRSQLString \<Rightarrow>
                      convertToRSQLString (value this) valueString shouldQuote)
             | None \<Rightarrow>
                 (case operator this of
                    Some (OpEnum opr) \<Rightarrow> operatorSuffix opr valueString shouldQuote
                  | _ \<Rightarrow> Inr [])))"

subsection \<open>A number type for examples\<close>

text \<open>
  The integers, with the text that \<^verbatim>\<open>Number.prototype.toString\<close> gives a number that
  is a safe integer: decimal notation.
\<close>

definition intToString :: "int \<Rightarrow> jsstring" where
  "intToString i = String_jsint (Num i)"

section \<open>Notions used in the statements\<close>

text \<open>
  \<^verbatim>\<open>String.prototype.isWellFormed\<close>: no unpaired surrogate. These are the strings on
  which \<^verbatim>\<open>encodeURIComponent\<close> returns.
\<close>

fun isWellFormed :: "jsstring \<Rightarrow> bool" where
  "isWellFormed [] = True"
| "isWellFormed (c # cs) =
     (if isLeadingSurrogate c then
        (case cs of [] \<Rightarrow> False | d # ds \<Rightarrow> isTrailingSurrogate d \<and> isWellFormed ds)
      else \<not> isTrailingSurrogate c \<and> isWellFormed cs)"

definition isSurrogate :: "codeunit \<Rightarrow> bool" where
  "isSurrogate c \<longleftrightarrow> isLeadingSurrogate c \<or> isTrailingSurrogate c"

text \<open>
  The characters that \<^verbatim>\<open>encodeURIComponent\<close> writes: the unescaped set and the
  percent sign.
\<close>

definition pctChar :: "codeunit \<Rightarrow> bool" where
  "pctChar c \<longleftrightarrow> uriUnescaped c \<or> c = 0x25"

definition isDigit :: "codeunit \<Rightarrow> bool" where
  "isDigit c \<longleftrightarrow> 0x30 \<le> c \<and> c \<le> 0x39"

text \<open>
  A number in exactly \<open>k\<close> decimal digits, with leading zeros (\<^verbatim>\<open>YYYY\<close>,
  \<^verbatim>\<open>MM\<close>, \<^verbatim>\<open>SSS\<close> of the date formats).
\<close>

fun fixedDigits :: "nat \<Rightarrow> nat \<Rightarrow> jsstring" where
  "fixedDigits 0 n = []"
| "fixedDigits (Suc k) n = fixedDigits k (n div 10) @ [decDigit (n mod 10)]"

text \<open>A date for the examples: 5 January 2019 local time, 4 January 2019, 23:04:05.006 UTC.\<close>

definition exampleDate :: DateFields where
  "exampleDate = \<lparr>fullYear = 2019, month = 0, date = 5, utcFullYear = 2019, utcMonth = 0,
     utcDate = 4, utcHours = 23, utcMinutes = 4, utcSeconds = 5, utcMilliseconds = 6\<rparr>"

text \<open>
  The values whose strings are all well formed: on them \<^verbatim>\<open>encodeURIComponent\<close>
  does not raise in \<^verbatim>\<open>build\<close>. The text of a number counts, since \<^verbatim>\<open>Equal\<close> and
  \<^verbatim>\<open>NotEqual\<close> pass it to \<^verbatim>\<open>encodeURIComponent\<close>.
\<close>

fun elemWellFormed :: "('num \<Rightarrow> jsstring) \<Rightarrow> 'num jselem \<Rightarrow> bool" where
  "elemWellFormed numToString (EString s) = isWellFormed s"
| "elemWellFormed numToString (ENumber n) = isWellFormed (numToString n)"
| "elemWellFormed numToString i = True"

fun valueWellFormed :: "('num \<Rightarrow> jsstring) \<Rightarrow> 'num jsval \<Rightarrow> bool" where
  "valueWellFormed numToString (JString s) = isWellFormed s"
| "valueWellFormed numToString (JNumber n) = isWellFormed (numToString n)"
| "valueWellFormed numToString (JArray xs) = list_all (elemWellFormed numToString) xs"
| "valueWellFormed numToString v = True"

text \<open>
  The field \<^verbatim>\<open>operator\<close> holds no member of the enumeration: no \<^verbatim>\<open>case\<close> of the
  \<^verbatim>\<open>switch\<close> matches.
\<close>

definition noBuiltinOperator :: "'num RSQLFilterExpression \<Rightarrow> bool" where
  "noBuiltinOperator this \<longleftrightarrow>
     (case operator this of Some (OpEnum opr) \<Rightarrow> False | _ \<Rightarrow> True)"

text \<open>
  A custom operator for the examples, whose \<^verbatim>\<open>convertToRSQLString\<close> returns
  \<^verbatim>\<open>=custom=\<close> followed by the value string.
\<close>

definition exampleCustomOperator :: "'num jsobject" where
  "exampleCustomOperator =
     JSObject (\<lambda>name. if name = ''convertToRSQLString''
                     then Some (\<lambda>v valueString shouldQuote. Inr (lit ''=custom='' @ valueString))
                     else None)"






text \<open>An object for the examples that has a method, but none of the name
  \<^verbatim>\<open>convertToRSQLString\<close>.\<close>

definition exampleOtherObject :: "'num jsobject" where
  "exampleOtherObject =
     JSObject (\<lambda>name. if name = ''render''
                     then Some (\<lambda>v valueString shouldQuote. Inr (lit ''=custom='' @ valueString))
                     else None)"

text \<open>
  The elements of an array on which the callback of \<^verbatim>\<open>map\<close> (lines 52 to 61)
  returns: every element but a string with an unpaired surrogate. The text of a number
  does not count, since the callback returns a number as it is.
\<close>

fun elemEncodable :: "'num jselem \<Rightarrow> bool" where
  "elemEncodable (EString s) = isWellFormed s"
| "elemEncodable i = True"

text \<open>
  How the operators that render the value string render it, as the operator table of
  the specification has it. Seven wrap it in double quotes and percent-encode the
  result (\<^verbatim>\<open>Equal\<close> and \<^verbatim>\<open>NotEqual\<close> when \<^verbatim>\<open>shouldQuote\<close> holds, the five
  pattern operators always, with their asterisks inside the quotes): \<open>quotedForm\<close>
  gives the token and what stands before and after the value string inside the quotes.
  Six append it as it is (the four comparison operators after the percent-encoded
  token, \<^verbatim>\<open>In\<close> and \<^verbatim>\<open>NotIn\<close> in parentheses): \<open>unquotedForm\<close> gives what stands
  before and after it. The other four operators do not render the value string.
\<close>

fun quotedForm :: "Operators \<Rightarrow> (jsstring \<times> jsstring \<times> jsstring) option" where
  "quotedForm Equal = Some (lit ''=in='', [], [])"
| "quotedForm NotEqual = Some (lit ''!='', [], [])"
| "quotedForm Like = Some (lit ''=='', [], [])"
| "quotedForm StartsWith = Some (lit ''=='', [], lit ''*'')"
| "quotedForm EndsWith = Some (lit ''=='', lit ''*'', [])"
| "quotedForm Contains = Some (lit ''=='', lit ''*'', lit ''*'')"
| "quotedForm DoesNotContain = Some (lit ''!='', lit ''*'', lit ''*'')"
| "quotedForm opr = None"

fun unquotedForm :: "Operators \<Rightarrow> (jsstring \<times> jsstring) option" where
  "unquotedForm GreaterThan = Some (lit ''%3E'', [])"
| "unquotedForm GreaterThanEqualTo = Some (lit ''%3E%3D'', [])"
| "unquotedForm LessThan = Some (lit ''%3C'', [])"
| "unquotedForm LessThanEqualTo = Some (lit ''%3C%3D'', [])"
| "unquotedForm In = Some (lit ''=in=('', lit '')'')"
| "unquotedForm NotIn = Some (lit ''=out=('', lit '')'')"
| "unquotedForm opr = None"

section \<open>Decoding a string value\<close>

text \<open>
  The decoding that C2 names, following the specification's words (the repository has no
  decoder): percent-decode, strip the surrounding quotes, unescape \<^verbatim>\<open>\"\<close> and
  \<^verbatim>\<open>\\\<close>. Percent-decoding reads the octets (a character below 128 stands for
  itself, \<^verbatim>\<open>%XX\<close> for the octet \<^verbatim>\<open>XX\<close>) and then decodes them as UTF-8 into
  UTF-16 code units; it fails on an escape that is not two hexadecimal digits and on a
  sequence of octets that is cut short.
\<close>

definition hexValue :: "codeunit \<Rightarrow> nat option" where
  "hexValue c =
     (if 0x30 \<le> c \<and> c \<le> 0x39 then Some (unat c - 0x30)
      else if 0x41 \<le> c \<and> c \<le> 0x46 then Some (unat c - 0x41 + 10)
      else if 0x61 \<le> c \<and> c \<le> 0x66 then Some (unat c - 0x61 + 10)
      else None)"

fun percentOctets :: "jsstring \<Rightarrow> nat list option" where
  "percentOctets [] = Some []"
| "percentOctets (c # cs) =
     (if c = 0x25 then
        (case cs of
           h # l # rest \<Rightarrow>
             (case (hexValue h, hexValue l) of
                (Some a, Some b) \<Rightarrow> map_option ((#) (16 * a + b)) (percentOctets rest)
              | _ \<Rightarrow> None)
         | _ \<Rightarrow> None)
      else if c < 0x80 then map_option ((#) (unat c)) (percentOctets cs)
      else None)"

text \<open>The UTF-16 code units of a code point.\<close>

definition codeUnits :: "nat \<Rightarrow> jsstring" where
  "codeUnits cp =
     (if cp < 0x10000 then [of_nat cp]
      else [of_nat (0xD800 + (cp - 0x10000) div 0x400),
            of_nat (0xDC00 + (cp - 0x10000) mod 0x400)])"

fun utf8Decode :: "nat list \<Rightarrow> jsstring option" where
  "utf8Decode [] = Some []"
| "utf8Decode (b # bs) =
     (if b < 0x80 then map_option ((@) (codeUnits b)) (utf8Decode bs)
      else if 0xC0 \<le> b \<and> b < 0xE0 then
        (case bs of
           b2 # rest \<Rightarrow>
             map_option ((@) (codeUnits ((b - 0xC0) * 0x40 + (b2 - 0x80)))) (utf8Decode rest)
         | _ \<Rightarrow> None)
      else if 0xE0 \<le> b \<and> b < 0xF0 then
        (case bs of
           b2 # b3 # rest \<Rightarrow>
             map_option
               ((@) (codeUnits ((b - 0xE0) * 0x1000 + (b2 - 0x80) * 0x40 + (b3 - 0x80))))
               (utf8Decode rest)
         | _ \<Rightarrow> None)
      else if 0xF0 \<le> b \<and> b < 0xF8 then
        (case bs of
           b2 # b3 # b4 # rest \<Rightarrow>
             map_option
               ((@) (codeUnits ((b - 0xF0) * 0x40000 + (b2 - 0x80) * 0x1000 +
                                (b3 - 0x80) * 0x40 + (b4 - 0x80))))
               (utf8Decode rest)
         | _ \<Rightarrow> None)
      else None)"

definition percentDecode :: "jsstring \<Rightarrow> jsstring option" where
  "percentDecode s = (case percentOctets s of None \<Rightarrow> None | Some bs \<Rightarrow> utf8Decode bs)"

definition stripQuotes :: "jsstring \<Rightarrow> jsstring option" where
  "stripQuotes s =
     (case s of
        [] \<Rightarrow> None
      | c # cs \<Rightarrow> if c = 0x22 \<and> cs \<noteq> [] \<and> last cs = 0x22 then Some (butlast cs) else None)"

fun unescape :: "jsstring \<Rightarrow> jsstring" where
  "unescape (c # d # cs) =
     (if c = 0x5C \<and> (d = 0x5C \<or> d = 0x22) then d # unescape cs else c # unescape (d # cs))"
| "unescape cs = cs"

definition decodeStringValue :: "jsstring \<Rightarrow> jsstring option" where
  "decodeStringValue e =
     (case percentDecode e of
        None \<Rightarrow> None
      | Some q \<Rightarrow> (case stripQuotes q of None \<Rightarrow> None | Some v \<Rightarrow> Some (unescape v)))"

text \<open>
  For the proofs: the UTF-8 octets of a well-formed string, and the two replacements of
  the escaping as one pass over the code units.
\<close>

fun octetsOf :: "jsstring \<Rightarrow> nat list" where
  "octetsOf [] = []"
| "octetsOf (c # cs) =
     (if isLeadingSurrogate c then
        (case cs of [] \<Rightarrow> [] | d # ds \<Rightarrow> utf8 (surrogatePairToCodePoint c d) @ octetsOf ds)
      else utf8 (unat c) @ octetsOf cs)"

definition escapeUnit :: "codeunit \<Rightarrow> jsstring" where
  "escapeUnit c = (if c = 0x5C then [0x5C, 0x5C] else if c = 0x22 then [0x5C, 0x22] else [c])"

text \<open>
  A string for the examples: \<^verbatim>\<open>a"b\c\<close>, a space, an emoji outside the basic plane
  (a surrogate pair), \<^verbatim>\<open>e\<close> with an acute accent and the euro sign.
\<close>

definition exampleString :: jsstring where
  "exampleString = [0x61, 0x22, 0x62, 0x5C, 0x63, 0x20, 0xD83D, 0xDE00, 0xE9, 0x20AC]"

section \<open>rsql-filter-list.ts and rsql-criteria.ts, from the specification\<close>

text \<open>
  The sources of \<^verbatim>\<open>RSQLFilterList\<close> and \<^verbatim>\<open>RSQLCriteria\<close> are missing; only their
  test is there (\<^verbatim>\<open>RSQLCriteria test\<close>). The definitions of this section follow
  sections 3, 4.3 and 4.4 of the specification, and the lemmas of the section on the
  repository's tests check them against every expectation of that test.
\<close>

text \<open>
  Modelled from the spec: the Filter List of \<^verbatim>\<open>rsql-filter-list.ts\<close> (missing). "Ordered
  sequence of entries; each entry is either a Filter Expression or a nested Filter List,
  paired with the connective used to join it to the previous entry (the first entry has
  no connective)"; here the first entry carries a connective that is never rendered.
  The specification renders the list that a merge of two criteria makes in parentheses
  as the body of the where clause (section 4.4) and a list of the same entries that the
  caller assembled without them (sections 3 and 4.3; section 9: "wrap only when at least
  2 entries AND being merged, never when solo"), so a list records which of the two it
  is: \<open>composed\<close> holds of the list that a merge made.
\<close>

datatype connective = AND | OR

text \<open>Modelled from the spec: an entry of a Filter List, "either a Filter Expression or a nested
  Filter List", and the list of the missing \<^verbatim>\<open>rsql-filter-list.ts\<close>.\<close>

datatype 'num FilterEntry =
  Expression "'num RSQLFilterExpression" | NestedList "'num RSQLFilterList"
and 'num RSQLFilterList =
  RSQLFilterList (composed: bool) (entries: "(connective \<times> 'num FilterEntry) list")

text \<open>
  Modelled from the spec: the empty list, and \<^verbatim>\<open>and(expr)\<close> and \<^verbatim>\<open>or(expr)\<close> of the
  missing \<^verbatim>\<open>RSQLFilterList\<close>: "\<^verbatim>\<open>and(expr)\<close> appends \<^verbatim>\<open>expr\<close> with AND connective;
  an equivalent \<^verbatim>\<open>or(expr)\<close> appends with OR connective; nested lists are appended the
  same way".
\<close>

definition emptyFilterList :: "'num RSQLFilterList" where
  "emptyFilterList = RSQLFilterList False []"

text \<open>Modelled from the spec: \<^verbatim>\<open>and(expr)\<close> and \<^verbatim>\<open>or(expr)\<close> of the missing
  \<^verbatim>\<open>RSQLFilterList\<close>, which append an entry with its connective.\<close>

definition addEntry ::
  "connective \<Rightarrow> 'num FilterEntry \<Rightarrow> 'num RSQLFilterList \<Rightarrow> 'num RSQLFilterList" where
  "addEntry k e l = RSQLFilterList (composed l) (entries l @ [(k, e)])"

text \<open>Modelled from the spec: the operator words \<^verbatim>\<open>" and "\<close> and \<^verbatim>\<open>" or "\<close> that
  \<^verbatim>\<open>build\<close> of the missing \<^verbatim>\<open>RSQLFilterList\<close> writes between two entries.\<close>

definition connectiveWord :: "connective \<Rightarrow> jsstring" where
  "connectiveWord k = (case k of AND \<Rightarrow> lit '' and '' | OR \<Rightarrow> lit '' or '')"

text \<open>Modelled from the spec: the parentheses that the missing \<^verbatim>\<open>RSQLFilterList\<close> writes
  around a list "combined into a larger expression".\<close>

definition inParentheses :: "jsstring \<Rightarrow> jsstring" where
  "inParentheses s = lit ''('' @ s @ lit '')''"

text \<open>
  Modelled from the spec: a rendered entry of the missing \<^verbatim>\<open>RSQLFilterList\<close>: its text,
  and whether the text is a bare sequence of two or more fragments, "a list with two or
  more entries" that is not yet in parentheses.
\<close>

type_synonym fragment = "jsstring \<times> bool"

text \<open>
  Modelled from the spec: a rendered entry of the missing \<^verbatim>\<open>RSQLFilterList\<close> as one of
  several that are joined: "a list with two or more entries renders wrapped in
  parentheses when it is itself being combined into a larger expression".
\<close>

definition asOperand :: "fragment \<Rightarrow> jsstring" where
  "asOperand f = (if snd f then inParentheses (fst f) else fst f)"

text \<open>
  Modelled from the spec: the entries that \<^verbatim>\<open>build\<close> of the missing \<^verbatim>\<open>RSQLFilterList\<close>
  renders: "an empty list renders to the empty string and must be treated as absent
  when composing parent structures (no stray connectives, no empty parentheses)", so an
  entry whose text is empty is left out.
\<close>

definition presentFragments :: "(connective \<times> fragment) list \<Rightarrow> (connective \<times> fragment) list" where
  "presentFragments fs = filter (\<lambda>(k, f). fst f \<noteq> []) fs"

text \<open>Modelled from the spec: the joining of the rendered entries in \<^verbatim>\<open>build\<close> of the
  missing \<^verbatim>\<open>RSQLFilterList\<close>, each connective "percent-encoded as a unit". It is
  applied to the entries that are present, an empty one having been left out before, so
  that no connective stands next to nothing; the connective of the first of them is not
  rendered.\<close>

fun joinFragments :: "(connective \<times> jsstring) list \<Rightarrow> error + jsstring" where
  "joinFragments [] = Inr []"
| "joinFragments [(k, f)] = Inr f"
| "joinFragments ((k, f) # (k', f') # rest) =
     (case encodeURIComponent (connectiveWord k') of
        Inl e \<Rightarrow> Inl e
      | Inr w \<Rightarrow> prepend (f @ w) (joinFragments ((k', f') # rest)))"

text \<open>
  Modelled from the spec: what \<^verbatim>\<open>build\<close> of the missing \<^verbatim>\<open>RSQLFilterList\<close> makes of
  the rendered entries that are present. "Empty list: the empty string. Single entry:
  that entry's own rendered fragment (expression's \<^verbatim>\<open>build()\<close>, or nested list's
  \<^verbatim>\<open>build()\<close>), unwrapped. Multiple entries: render each entry, join with the literal
  operator word (\<^verbatim>\<open>" and "\<close> or \<^verbatim>\<open>" or "\<close>, matching each entry's stored
  connective) percent-encoded as a unit, with no added parentheses at this level";
  an entry that is "a list with two or more entries renders wrapped in parentheses when
  it is itself being combined into a larger expression"; and of the list that a merge
  makes, "this composite, having at least 2 entries, is wrapped in parentheses".
\<close>

definition combineFragments :: "bool \<Rightarrow> (connective \<times> fragment) list \<Rightarrow> error + fragment" where
  "combineFragments wrapped fs =
     (case fs of
        [] \<Rightarrow> Inr ([], False)
      | [(k, f)] \<Rightarrow> Inr f
      | _ \<Rightarrow>
          (case joinFragments (map (\<lambda>(k, f). (k, asOperand f)) fs) of
             Inl e \<Rightarrow> Inl e
           | Inr body \<Rightarrow> if wrapped then Inr (inParentheses body, False) else Inr (body, True)))"

text \<open>Modelled from the spec: \<^verbatim>\<open>build\<close> of the missing \<^verbatim>\<open>RSQLFilterList\<close> (sections 3
  and 4.3, and 4.4 for the list that a merge makes), as a fragment: every entry is
  rendered, an expression by its own \<^verbatim>\<open>build\<close> and a nested list by this function.\<close>

fun renderList :: "('num \<Rightarrow> jsstring) \<Rightarrow> 'num RSQLFilterList \<Rightarrow> error + fragment"
  and renderEntries ::
    "('num \<Rightarrow> jsstring) \<Rightarrow> (connective \<times> 'num FilterEntry) list \<Rightarrow>
       error + (connective \<times> fragment) list"
  and renderEntry :: "('num \<Rightarrow> jsstring) \<Rightarrow> 'num FilterEntry \<Rightarrow> error + fragment"
where
  "renderList nts (RSQLFilterList wrapped es) =
     (case renderEntries nts es of
        Inl e \<Rightarrow> Inl e
      | Inr fragments \<Rightarrow> combineFragments wrapped (presentFragments fragments))"
| "renderEntries nts [] = Inr []"
| "renderEntries nts ((k, e) # rest) =
     (case renderEntry nts e of
        Inl x \<Rightarrow> Inl x
      | Inr f \<Rightarrow>
          (case renderEntries nts rest of Inl x \<Rightarrow> Inl x | Inr fs \<Rightarrow> Inr ((k, f) # fs)))"
| "renderEntry nts (Expression x) =
     (case build nts x of Inl e \<Rightarrow> Inl e | Inr s \<Rightarrow> Inr (s, False))"
| "renderEntry nts (NestedList l) = renderList nts l"

text \<open>Modelled from the spec: \<^verbatim>\<open>build\<close> of the missing \<^verbatim>\<open>RSQLFilterList\<close>: the text of
  the rendered list.\<close>

definition buildList :: "('num \<Rightarrow> jsstring) \<Rightarrow> 'num RSQLFilterList \<Rightarrow> error + jsstring" where
  "buildList nts l = (case renderList nts l of Inl e \<Rightarrow> Inl e | Inr f \<Rightarrow> Inr (fst f))"

text \<open>
  Modelled from the spec: the Criteria Aggregator of \<^verbatim>\<open>rsql-criteria.ts\<close> (missing): its
  fields, with the keywords that the constructor takes and their defaults
  \<^verbatim>\<open>$where\<close>, \<^verbatim>\<open>$orderBy\<close>, \<^verbatim>\<open>$pageSize\<close>, \<^verbatim>\<open>$includeTotalCount\<close>,
  \<^verbatim>\<open>$pageNumber\<close>; \<^verbatim>\<open>includeTotalCount\<close> is true by default.
\<close>

text \<open>Modelled from the spec: the directions of an ordering, "asc" and "desc".\<close>

datatype direction = Asc | Desc

text \<open>Modelled from the spec: the direction of an entry of \<^verbatim>\<open>orderBy\<close> of the missing
  \<^verbatim>\<open>RSQLCriteria\<close>, as it is rendered.\<close>

definition directionWord :: "direction \<Rightarrow> jsstring" where
  "directionWord d = (case d of Asc \<Rightarrow> lit ''asc'' | Desc \<Rightarrow> lit ''desc'')"

text \<open>Modelled from the spec: the fields of the missing \<^verbatim>\<open>RSQLCriteria\<close> (section 3).\<close>

record 'num RSQLCriteria =
  filters :: "'num RSQLFilterList"
  orderBy :: "(jsstring \<times> direction) list"
  pageSize :: "nat option"
  pageNumber :: "nat option"
  includeTotalCount :: bool
  whereKeyword :: jsstring
  orderByKeyword :: jsstring
  pageSizeKeyword :: jsstring
  includeTotalCountKeyword :: jsstring
  pageNumberKeyword :: jsstring

text \<open>Modelled from the spec: the constructor of the missing \<^verbatim>\<open>RSQLCriteria\<close>, which takes
  the five keywords.\<close>

definition new_RSQLCriteria ::
  "jsstring \<Rightarrow> jsstring \<Rightarrow> jsstring \<Rightarrow> jsstring \<Rightarrow> jsstring \<Rightarrow> 'num RSQLCriteria" where
  "new_RSQLCriteria whereKw orderByKw pageSizeKw includeTotalCountKw pageNumberKw =
     \<lparr>filters = emptyFilterList, orderBy = [], pageSize = None, pageNumber = None,
      includeTotalCount = True, whereKeyword = whereKw, orderByKeyword = orderByKw,
      pageSizeKeyword = pageSizeKw, includeTotalCountKeyword = includeTotalCountKw,
      pageNumberKeyword = pageNumberKw\<rparr>"

text \<open>Modelled from the spec: the constructor of the missing \<^verbatim>\<open>RSQLCriteria\<close> with the
  default keywords.\<close>

definition defaultCriteria :: "'num RSQLCriteria" where
  "defaultCriteria =
     new_RSQLCriteria (lit ''$where'') (lit ''$orderBy'') (lit ''$pageSize'')
       (lit ''$includeTotalCount'') (lit ''$pageNumber'')"

text \<open>
  Modelled from the spec: \<^verbatim>\<open>build\<close> of the missing \<^verbatim>\<open>RSQLCriteria\<close>. "Sections, each
  included only if non-empty/meaningful, joined with \<^verbatim>\<open>&\<close> in this fixed order: the
  where keyword, \<^verbatim>\<open>=\<close> and \<^verbatim>\<open>filters.build()\<close>, only if that is non-empty; the order by
  keyword, \<^verbatim>\<open>=\<close> and the percent-encoded entries \<^verbatim>\<open>field direction\<close> joined with a
  comma and a space, only if there are any; the page size, only if set; the total count
  keyword and \<^verbatim>\<open>=true\<close>, only if the page size is set and \<^verbatim>\<open>includeTotalCount\<close> is
  true; the page number, only if set".
\<close>

definition whereSection ::
  "('num \<Rightarrow> jsstring) \<Rightarrow> 'num RSQLCriteria \<Rightarrow> error + jsstring option" where
  "whereSection nts c =
     (case buildList nts (filters c) of
        Inl e \<Rightarrow> Inl e
      | Inr f \<Rightarrow> Inr (if f = [] then None else Some (whereKeyword c @ lit ''='' @ f)))"

text \<open>Modelled from the spec: the second section of \<^verbatim>\<open>build\<close> of the missing
  \<^verbatim>\<open>RSQLCriteria\<close>.\<close>

definition orderBySection :: "'num RSQLCriteria \<Rightarrow> error + jsstring option" where
  "orderBySection c =
     (if orderBy c = [] then Inr None
      else
        (case encodeURIComponent
                (join (lit '', '') (map (\<lambda>(f, d). f @ lit '' '' @ directionWord d) (orderBy c))) of
           Inl e \<Rightarrow> Inl e
         | Inr t \<Rightarrow> Inr (Some (orderByKeyword c @ lit ''='' @ t))))"

text \<open>Modelled from the spec: the third section of \<^verbatim>\<open>build\<close> of the missing
  \<^verbatim>\<open>RSQLCriteria\<close>.\<close>

definition pageSizeSection :: "'num RSQLCriteria \<Rightarrow> jsstring option" where
  "pageSizeSection c =
     (case pageSize c of None \<Rightarrow> None | Some n \<Rightarrow> Some (pageSizeKeyword c @ lit ''='' @ decimal n))"

text \<open>Modelled from the spec: the fourth section of \<^verbatim>\<open>build\<close> of the missing
  \<^verbatim>\<open>RSQLCriteria\<close>.\<close>

definition includeTotalCountSection :: "'num RSQLCriteria \<Rightarrow> jsstring option" where
  "includeTotalCountSection c =
     (if pageSize c \<noteq> None \<and> includeTotalCount c
      then Some (includeTotalCountKeyword c @ lit ''=true'') else None)"

text \<open>Modelled from the spec: the fifth section of \<^verbatim>\<open>build\<close> of the missing
  \<^verbatim>\<open>RSQLCriteria\<close>.\<close>

definition pageNumberSection :: "'num RSQLCriteria \<Rightarrow> jsstring option" where
  "pageNumberSection c =
     (case pageNumber c of
        None \<Rightarrow> None
      | Some n \<Rightarrow> Some (pageNumberKeyword c @ lit ''='' @ decimal n))"

text \<open>Modelled from the spec: \<^verbatim>\<open>build\<close> of the missing \<^verbatim>\<open>RSQLCriteria\<close>: the sections
  that are present, joined with \<^verbatim>\<open>&\<close>.\<close>

definition buildCriteria :: "('num \<Rightarrow> jsstring) \<Rightarrow> 'num RSQLCriteria \<Rightarrow> error + jsstring" where
  "buildCriteria nts c =
     (case whereSection nts c of
        Inl e \<Rightarrow> Inl e
      | Inr w \<Rightarrow>
          (case orderBySection c of
             Inl e \<Rightarrow> Inl e
           | Inr ob \<Rightarrow>
               Inr (join (lit ''&'')
                      (List.map_filter id
                         [w, ob, pageSizeSection c, includeTotalCountSection c,
                          pageNumberSection c]))))"

text \<open>
  Modelled from the spec: \<^verbatim>\<open>and(other)\<close> and \<^verbatim>\<open>or(other)\<close> of the missing
  \<^verbatim>\<open>RSQLCriteria\<close>, which change the receiver (returned here). "If both
  \<^verbatim>\<open>this.filters\<close> and \<^verbatim>\<open>other.filters\<close> are non-empty, the merged filters become a
  new two-entry Filter List: \<^verbatim>\<open>[this.filters, other.filters]\<close> joined by AND (for
  \<^verbatim>\<open>and\<close>) or OR (for \<^verbatim>\<open>or\<close>). If exactly one side's filters is non-empty, the
  receiver's filters become that side's filters. If both are empty, filters remain
  empty. \<^verbatim>\<open>orderBy\<close>, \<^verbatim>\<open>pageSize\<close>, \<^verbatim>\<open>pageNumber\<close>, \<^verbatim>\<open>includeTotalCount\<close>, and
  keyword overrides are NOT merged from \<^verbatim>\<open>other\<close>".
\<close>

definition mergeCriteria ::
  "connective \<Rightarrow> 'num RSQLCriteria \<Rightarrow> 'num RSQLCriteria \<Rightarrow> 'num RSQLCriteria" where
  "mergeCriteria k this other =
     (if entries (filters this) \<noteq> [] \<and> entries (filters other) \<noteq> [] then
        this\<lparr>filters :=
          RSQLFilterList True [(k, NestedList (filters this)), (k, NestedList (filters other))]\<rparr>
      else if entries (filters other) \<noteq> [] then this\<lparr>filters := filters other\<rparr>
      else this)"

text \<open>Modelled from the spec: \<^verbatim>\<open>and(other)\<close> of the missing \<^verbatim>\<open>RSQLCriteria\<close>.\<close>

definition criteria_and :: "'num RSQLCriteria \<Rightarrow> 'num RSQLCriteria \<Rightarrow> 'num RSQLCriteria" where
  "criteria_and this other = mergeCriteria AND this other"

text \<open>Modelled from the spec: \<^verbatim>\<open>or(other)\<close> of the missing \<^verbatim>\<open>RSQLCriteria\<close>.\<close>

definition criteria_or :: "'num RSQLCriteria \<Rightarrow> 'num RSQLCriteria \<Rightarrow> 'num RSQLCriteria" where
  "criteria_or this other = mergeCriteria OR this other"

text \<open>The objects that the repository's test builds.\<close>

definition containsFilter :: "string \<Rightarrow> string \<Rightarrow> int FilterEntry" where
  "containsFilter f v =
     Expression (new_RSQLFilterExpression (lit f) (OpEnum Contains) (JString (lit v))
       defaultOptions)"

definition equalFilter :: "string \<Rightarrow> string \<Rightarrow> int FilterEntry" where
  "equalFilter f v =
     Expression (new_RSQLFilterExpression (lit f) (OpEnum Equal) (JString (lit v))
       defaultOptions)"

definition keywordCriteria :: "string \<Rightarrow> string \<Rightarrow> string \<Rightarrow> string \<Rightarrow> int RSQLCriteria" where
  "keywordCriteria w ob ps tc =
     new_RSQLCriteria (lit w) (lit ob) (lit ps) (lit tc) (lit ''$pageNumber'')"

definition criteria1 :: "int RSQLCriteria" where
  "criteria1 = defaultCriteria
     \<lparr>filters := addEntry AND (containsFilter ''code'' ''a'') emptyFilterList,
      orderBy := [(lit ''code'', Asc)], pageSize := Some 10, pageNumber := Some 1\<rparr>"

definition criteria2 :: "int RSQLCriteria" where
  "criteria2 = defaultCriteria
     \<lparr>filters := addEntry AND (containsFilter ''description'' ''b'') emptyFilterList\<rparr>"

text \<open>
  Two more objects for the examples: a criteria whose filter list has two entries,
  \<^verbatim>\<open>code\<close> contains \<^verbatim>\<open>a\<close> or \<^verbatim>\<open>name\<close> contains \<^verbatim>\<open>n\<close>, and one whose filter
  list holds nothing but an empty nested list.
\<close>

definition criteria3 :: "int RSQLCriteria" where
  "criteria3 = defaultCriteria
     \<lparr>filters := addEntry OR (containsFilter ''name'' ''n'')
                   (addEntry AND (containsFilter ''code'' ''a'') emptyFilterList)\<rparr>"


section \<open>Basic facts\<close>

lemma lit_append: "lit (a @ b) = lit a @ lit b"
  by (simp add: lit_def)

lemma prepend_prepend: "prepend xs (prepend ys r) = prepend (xs @ ys) r"
  by (simp add: prepend_def split: sum.splits)

lemmas encode_eval = lit_def quote_def prepend_def uriUnescaped_def isTrailingSurrogate_def
  isLeadingSurrogate_def pctCodePoint_def pctOctet_def utf8_def hexDigit_def

lemma followedBy_Inr_iff: "followedBy r ys = Inr zs \<longleftrightarrow> (\<exists>xs. r = Inr xs \<and> zs = xs @ ys)"
  by (auto simp: followedBy_def split: sum.splits)

lemma followedBy_Inl_iff: "followedBy r ys = Inl e \<longleftrightarrow> r = Inl e"
  by (auto simp: followedBy_def split: sum.splits)

lemma encodeURIComponent_tokens:
  "encodeURIComponent (lit ''>'') = Inr (lit ''%3E'')"
  "encodeURIComponent (lit ''>='') = Inr (lit ''%3E%3D'')"
  "encodeURIComponent (lit ''<'') = Inr (lit ''%3C'')"
  "encodeURIComponent (lit ''<='') = Inr (lit ''%3C%3D'')"
  "encodeURIComponent (lit [CHR 0x22, CHR 0x22]) = Inr (lit ''%22%22'')"
  by (simp_all add: encode_eval)

lemma encodeURIComponent_quoted_abc:
  "encodeURIComponent (quote (lit ''abc'')) = Inr (lit ''%22abc%22'')"
  by (simp add: encode_eval)

lemma escape_abc: "replaceQuote (replaceBackslash (lit ''abc'')) = lit ''abc''"
  by (simp add: lit_def replaceQuote_def replaceBackslash_def)

section \<open>The constructor\<close>

text \<open>
  C9. After the constructor, exactly one of the fields \<^verbatim>\<open>operator\<close> and
  \<^verbatim>\<open>customOperator\<close> is set, whatever the argument. \<^verbatim>\<open>customOperator\<close> is set
  precisely when the argument is an object that has the property
  \<^verbatim>\<open>convertToRSQLString\<close>: then it holds that object and \<^verbatim>\<open>operator\<close> is cleared.
  Otherwise, for a member of the enumeration and for an object without that property,
  \<^verbatim>\<open>operator\<close> holds the argument and \<^verbatim>\<open>customOperator\<close> is cleared. So the
  object of the examples that has \<^verbatim>\<open>convertToRSQLString\<close> ends in
  \<^verbatim>\<open>customOperator\<close>, and the object that has only a method \<^verbatim>\<open>render\<close>, the object
  without properties and the member \<^verbatim>\<open>Equal\<close> end in \<^verbatim>\<open>operator\<close>.
\<close>

theorem C9_constructor_sets_exactly_one:
  "(let this = new_RSQLFilterExpression fld opr val opts in
      ((operator this = None) \<noteq> (customOperator this = None)) \<and>
      ((customOperator this \<noteq> None) =
         (\<exists>obj. opr = OpObject obj \<and> props obj ''convertToRSQLString'' \<noteq> None)) \<and>
      (case opr of
         OpObject obj \<Rightarrow>
           (case props obj ''convertToRSQLString'' of
              Some convertToRSQLString \<Rightarrow> customOperator this = Some obj \<and> operator this = None
            | None \<Rightarrow> operator this = Some opr \<and> customOperator this = None)
       | OpEnum e \<Rightarrow> operator this = Some opr \<and> customOperator this = None))
   \<and> customOperator (new_RSQLFilterExpression fld (OpObject exampleCustomOperator) val opts) =
       Some exampleCustomOperator
   \<and> operator (new_RSQLFilterExpression fld (OpObject exampleCustomOperator) val opts) = None
   \<and> operator (new_RSQLFilterExpression fld (OpObject exampleOtherObject) val opts) =
       Some (OpObject exampleOtherObject)
   \<and> customOperator (new_RSQLFilterExpression fld (OpObject exampleOtherObject) val opts) = None
   \<and> operator (new_RSQLFilterExpression fld (OpObject (JSObject (\<lambda>name. None))) val opts) =
       Some (OpObject (JSObject (\<lambda>name. None)))
   \<and> customOperator (new_RSQLFilterExpression fld (OpObject (JSObject (\<lambda>name. None))) val opts) =
       None
   \<and> operator (new_RSQLFilterExpression fld (OpEnum Equal) val opts) = Some (OpEnum Equal)
   \<and> customOperator (new_RSQLFilterExpression fld (OpEnum Equal) val opts) = None"
proof -
  have general: "(let this = new_RSQLFilterExpression fld opr val opts in
      ((operator this = None) \<noteq> (customOperator this = None)) \<and>
      ((customOperator this \<noteq> None) =
         (\<exists>obj. opr = OpObject obj \<and> props obj ''convertToRSQLString'' \<noteq> None)) \<and>
      (case opr of
         OpObject obj \<Rightarrow>
           (case props obj ''convertToRSQLString'' of
              Some convertToRSQLString \<Rightarrow> customOperator this = Some obj \<and> operator this = None
            | None \<Rightarrow> operator this = Some opr \<and> customOperator this = None)
       | OpEnum e \<Rightarrow> operator this = Some opr \<and> customOperator this = None))"
    by (auto simp: new_RSQLFilterExpression_def instanceOfCustomOperator_def Let_def
        split: oparg.splits option.splits)
  have examples:
    "customOperator (new_RSQLFilterExpression fld (OpObject exampleCustomOperator) val opts) =
       Some exampleCustomOperator"
    "operator (new_RSQLFilterExpression fld (OpObject exampleCustomOperator) val opts) = None"
    "operator (new_RSQLFilterExpression fld (OpObject exampleOtherObject) val opts) =
       Some (OpObject exampleOtherObject)"
    "customOperator (new_RSQLFilterExpression fld (OpObject exampleOtherObject) val opts) = None"
    "operator (new_RSQLFilterExpression fld (OpObject (JSObject (\<lambda>name. None))) val opts) =
       Some (OpObject (JSObject (\<lambda>name. None)))"
    "customOperator (new_RSQLFilterExpression fld (OpObject (JSObject (\<lambda>name. None))) val opts) =
       None"
    "operator (new_RSQLFilterExpression fld (OpEnum Equal) val opts) = Some (OpEnum Equal)"
    "customOperator (new_RSQLFilterExpression fld (OpEnum Equal) val opts) = None"
    by (simp_all add: new_RSQLFilterExpression_def instanceOfCustomOperator_def
        exampleCustomOperator_def exampleOtherObject_def)
  from general examples show ?thesis
    by (intro conjI) assumption+
qed

section \<open>The array branch of build\<close>

lemma encodeURIComponent_quoted_null:
  "encodeURIComponent (quote (lit ''null'')) = Inr (lit ''%22null%22'')"
  by (simp add: encode_eval)

lemma encodeURIComponent_quoted_true:
  "encodeURIComponent (quote (lit ''true'')) = Inr (lit ''%22true%22'')"
  by (simp add: encode_eval)

lemma encodeURIComponent_quoted_false:
  "encodeURIComponent (quote (lit ''false'')) = Inr (lit ''%22false%22'')"
  by (simp add: encode_eval)

lemma join_Cons: "ys \<noteq> [] \<Longrightarrow> join sep (x # ys) = x @ sep @ join sep ys"
  by (cases ys) simp_all

lemma mapRaising_length: "mapRaising f xs = Inr ys \<Longrightarrow> length ys = length xs"
  by (induction xs arbitrary: ys) (auto split: sum.splits)

text \<open>The array branch, one element at a time.\<close>

lemma buildValue_array_undefined:
  "buildValue nts opts (JArray (xs @ EUndefined # ys)) = buildValue nts opts (JArray (xs @ ys))"
  by simp

lemma buildValue_array_Cons:
  assumes "x \<noteq> EUndefined"
  shows "buildValue nts opts (JArray (x # ys)) =
     (case quoteElement nts x of
        Inl e \<Rightarrow> Inl e
      | Inr q \<Rightarrow>
          (case buildValue nts opts (JArray ys) of
             Inl e \<Rightarrow> Inl e
           | Inr (rest, sq) \<Rightarrow>
               Inr (if filter (\<lambda>i. i \<noteq> EUndefined) ys = [] then quotedText nts q
                    else quotedText nts q @ lit '','' @ rest, False)))"
proof (cases "filter (\<lambda>i. i \<noteq> EUndefined) ys = []")
  case True
  then show ?thesis using assms by (simp split: sum.splits)
next
  case False
  have ne: "mapRaising (quoteElement nts) (filter (\<lambda>i. i \<noteq> EUndefined) ys) = Inr qs \<Longrightarrow> qs \<noteq> []" for qs
    using False mapRaising_length by fastforce
  show ?thesis using assms False
    by (auto simp: join_Cons dest: ne split: sum.splits)
qed

lemma encodeURIComponent_true: "encodeURIComponent (lit ''true'') = Inr (lit ''true'')"
  by (simp add: encode_eval)

text \<open>
  C10. In the array branch only the elements that are \<^verbatim>\<open>undefined\<close> are removed, wherever
  they stand. A \<^verbatim>\<open>null\<close> element is kept: it is neither a number nor a string, so it
  takes the last branch of the callback, as a boolean does, and is rendered as the
  percent-encoding of the quoted text \<^verbatim>\<open>"null"\<close>, that is \<^verbatim>\<open>%22null%22\<close>, followed
  by a comma when another element follows.
\<close>

theorem C10_null_elements:
  "buildValue nts opts (JArray (xs @ EUndefined # ys)) = buildValue nts opts (JArray (xs @ ys))
   \<and> quoteElement nts ENull = Inr (QString (lit ''%22null%22''))
   \<and> quoteElement nts ENull = asQString (encodeURIComponent (quote (templateText nts ENull)))
   \<and> quoteElement nts (EBoolean b) =
       asQString (encodeURIComponent (quote (templateText nts (EBoolean b))))
   \<and> buildValue nts opts (JArray (ENull # ys)) =
       (case buildValue nts opts (JArray ys) of
          Inl e \<Rightarrow> Inl e
        | Inr (rest, sq) \<Rightarrow>
            Inr (if filter (\<lambda>i. i \<noteq> EUndefined) ys = [] then lit ''%22null%22''
                 else lit ''%22null%22'' @ lit '','' @ rest, False))
   \<and> buildValue nts opts (JArray [ENull, EUndefined, EBoolean True]) =
       Inr (lit ''%22null%22,%22true%22'', False)"
proof -
  have u: "buildValue nts opts (JArray (xs @ EUndefined # ys)) =
      buildValue nts opts (JArray (xs @ ys))"
    by (rule buildValue_array_undefined)
  have n: "quoteElement nts ENull = Inr (QString (lit ''%22null%22''))"
    by (simp add: encodeURIComponent_quoted_null asQString_def)
  have p: "quoteElement nts ENull =
      asQString (encodeURIComponent (quote (templateText nts ENull)))"
    by simp
  have q: "quoteElement nts (EBoolean b) =
       asQString (encodeURIComponent (quote (templateText nts (EBoolean b))))"
    by simp
  have c: "buildValue nts opts (JArray (ENull # zs)) =
       (case buildValue nts opts (JArray zs) of
          Inl e \<Rightarrow> Inl e
        | Inr (rest, sq) \<Rightarrow>
            Inr (if filter (\<lambda>i. i \<noteq> EUndefined) zs = [] then lit ''%22null%22''
                 else lit ''%22null%22'' @ lit '','' @ rest, False))" for zs
    by (subst buildValue_array_Cons) (simp_all add: n del: buildValue.simps quoteElement.simps split: sum.splits prod.splits)
  have t: "quoteElement nts (EBoolean True) = Inr (QString (lit ''%22true%22''))"
    by (simp add: encodeURIComponent_quoted_true asQString_def)
  have e: "buildValue nts opts (JArray [ENull, EUndefined, EBoolean True]) =
       Inr (lit ''%22null%22,%22true%22'', False)"
    by (simp add: n t lit_append [symmetric] del: quoteElement.simps)
  from u n p q c [of ys] e show ?thesis
    by (intro conjI) assumption+
qed

section \<open>Well-formed strings and encodeURIComponent\<close>

lemma uriUnescaped_not_surrogate: "uriUnescaped c \<Longrightarrow> \<not> isSurrogate c"
  unfolding uriUnescaped_def isSurrogate_def isLeadingSurrogate_def isTrailingSurrogate_def
  by (auto simp: word_le_nat_alt)

lemma leading_not_trailing: "isLeadingSurrogate c \<Longrightarrow> \<not> isTrailingSurrogate c"
  unfolding isLeadingSurrogate_def isTrailingSurrogate_def
  by (auto simp: word_le_nat_alt)

lemma prepend_Inr_iff: "prepend xs r = Inr ys \<longleftrightarrow> (\<exists>zs. r = Inr zs \<and> ys = xs @ zs)"
  by (auto simp: prepend_def split: sum.splits)

lemma prepend_Inl_iff: "prepend xs r = Inl e \<longleftrightarrow> r = Inl e"
  by (auto simp: prepend_def split: sum.splits)

lemma encodeURIComponent_returns_iff:
  "(\<exists>r. encodeURIComponent s = Inr r) \<longleftrightarrow> isWellFormed s"
proof (induction s rule: encodeURIComponent.induct)
  case 1
  then show ?case by simp
next
  case (2 c cs)
  show ?case
  proof (cases "uriUnescaped c")
    case True
    with 2 uriUnescaped_not_surrogate [of c] show ?thesis
      by (simp add: prepend_Inr_iff isSurrogate_def)
  next
    case nu: False
    show ?thesis
    proof (cases "isTrailingSurrogate c")
      case True
      with nu leading_not_trailing [of c] show ?thesis by auto
    next
      case nt: False
      show ?thesis
      proof (cases "isLeadingSurrogate c")
        case True
        with nu nt 2 show ?thesis
          by (cases cs) (auto simp: prepend_Inr_iff)
      next
        case False
        with nu nt 2 show ?thesis
          by (simp add: prepend_Inr_iff)
      qed
    qed
  qed
qed

lemma encodeURIComponent_raises_URIError:
  "encodeURIComponent s = Inl e \<Longrightarrow> e = URIError"
  by (induction s rule: encodeURIComponent.induct)
     (auto simp: prepend_Inl_iff split: if_splits list.splits)


lemma isWellFormed_append:
  "isWellFormed a \<Longrightarrow> isWellFormed b \<Longrightarrow> isWellFormed (a @ b)"
proof (induction a rule: isWellFormed.induct)
  case 1
  then show ?case by simp
next
  case (2 c cs)
  then show ?case
    by (cases cs) (auto split: if_splits)
qed

lemma isWellFormed_no_surrogates:
  "list_all (\<lambda>c. \<not> isSurrogate c) s \<Longrightarrow> isWellFormed s"
  by (induction s) (auto simp: isSurrogate_def)

lemma lit_no_surrogates: "list_all (\<lambda>c. \<not> isSurrogate c) (lit s)"
proof -
  have "\<not> isSurrogate (of_nat (of_char c))" for c :: char
  proof -
    have lt: "(of_char c :: nat) < 256" by simp
    then have "(of_char c :: nat) < 65536" by linarith
    then have "(of_char c :: nat) mod 65536 = of_char c" by (rule mod_less)
    then have "unat (of_nat (of_char c) :: codeunit) = of_char c"
      by (simp add: unat_of_nat)
    with lt have "unat (of_nat (of_char c) :: codeunit) < 256" by (simp only:)
    then show ?thesis
      by (auto simp: isSurrogate_def isLeadingSurrogate_def isTrailingSurrogate_def
          word_le_nat_alt simp del: of_nat_of_char)
  qed
  then show ?thesis by (simp add: lit_def list_all_iff del: of_nat_of_char)
qed

lemma isWellFormed_lit: "isWellFormed (lit s)"
  by (rule isWellFormed_no_surrogates [OF lit_no_surrogates])

lemma isWellFormed_replaceBackslash:
  "isWellFormed s \<Longrightarrow> isWellFormed (replaceBackslash s)"
proof (induction s rule: isWellFormed.induct)
  case 1
  then show ?case by (simp add: replaceBackslash_def)
next
  case (2 c cs)
  have bs: "\<not> isSurrogate (0x5C :: codeunit)"
    by (simp add: isSurrogate_def isLeadingSurrogate_def isTrailingSurrogate_def)
  show ?case
  proof (cases "isLeadingSurrogate c")
    case True
    with 2 bs show ?thesis
      by (cases cs) (auto simp: replaceBackslash_def isSurrogate_def)
  next
    case False
    with 2 bs show ?thesis
      by (auto simp: replaceBackslash_def isSurrogate_def)
  qed
qed

lemma isWellFormed_replaceQuote:
  "isWellFormed s \<Longrightarrow> isWellFormed (replaceQuote s)"
proof (induction s rule: isWellFormed.induct)
  case 1
  then show ?case by (simp add: replaceQuote_def)
next
  case (2 c cs)
  have bs: "\<not> isSurrogate (0x5C :: codeunit)" "\<not> isSurrogate (0x22 :: codeunit)"
    by (simp_all add: isSurrogate_def isLeadingSurrogate_def isTrailingSurrogate_def)
  show ?case
  proof (cases "isLeadingSurrogate c")
    case True
    with 2 bs show ?thesis
      by (cases cs) (auto simp: replaceQuote_def isSurrogate_def)
  next
    case False
    with 2 bs show ?thesis
      by (auto simp: replaceQuote_def isSurrogate_def)
  qed
qed

lemma isWellFormed_quote: "isWellFormed s \<Longrightarrow> isWellFormed (quote s)"
proof -
  have q: "isWellFormed [0x22 :: codeunit]"
    by (simp add: isLeadingSurrogate_def isTrailingSurrogate_def)
  assume "isWellFormed s"
  then show ?thesis
    unfolding quote_def by (intro isWellFormed_append q)
qed


lemma unat_plus_of_nat:
  "unat a + n < 65536 \<Longrightarrow> unat ((a :: codeunit) + of_nat n) = unat a + n"
  by (simp add: unat_word_ariths unat_of_nat)

lemma uriUnescaped_hexDigit: "n < 16 \<Longrightarrow> uriUnescaped (hexDigit n)"
  by (simp add: hexDigit_def uriUnescaped_def word_le_nat_alt unat_plus_of_nat)

lemma pctChar_pctOctet: "b < 256 \<Longrightarrow> list_all pctChar (pctOctet b)"
  by (simp add: pctOctet_def pctChar_def uriUnescaped_hexDigit less_mult_imp_div_less)

lemma utf8_octets: "cp < 0x110000 \<Longrightarrow> list_all (\<lambda>b. b < 256) (utf8 cp)"
  by (simp add: utf8_def) arith

lemma pctChar_pctCodePoint: "cp < 0x110000 \<Longrightarrow> list_all pctChar (pctCodePoint cp)"
  using utf8_octets [of cp]
  by (auto simp: pctCodePoint_def list_all_iff dest!: pctChar_pctOctet)

lemma surrogatePairToCodePoint_bound:
  "isLeadingSurrogate c \<Longrightarrow> isTrailingSurrogate d \<Longrightarrow> surrogatePairToCodePoint c d < 0x110000"
  by (simp add: isLeadingSurrogate_def isTrailingSurrogate_def surrogatePairToCodePoint_def
      word_le_nat_alt) arith

lemma unat_codeunit_bound: "unat (c :: codeunit) < 0x110000"
  using unsigned_less [of c, where ?'a = nat] by simp

lemma prepend_cases:
  "prepend xs r = Inr ys \<Longrightarrow> (\<And>zs. r = Inr zs \<Longrightarrow> ys = xs @ zs \<Longrightarrow> P) \<Longrightarrow> P"
  by (auto simp: prepend_Inr_iff)

lemma encodeURIComponent_pctChar:
  "encodeURIComponent s = Inr r \<Longrightarrow> list_all pctChar r"
proof (induction s arbitrary: r rule: encodeURIComponent.induct)
  case 1
  then show ?case by simp
next
  case (2 c cs)
  show ?case
  proof (cases "uriUnescaped c")
    case True
    with 2 show ?thesis
      by (auto simp: prepend_Inr_iff pctChar_def)
  next
    case nu: False
    show ?thesis
    proof (cases "isLeadingSurrogate c")
      case True
      with nu 2 leading_not_trailing [of c] show ?thesis
        by (cases cs)
           (auto simp: prepend_Inr_iff pctChar_pctCodePoint surrogatePairToCodePoint_bound
             split: if_splits)
    next
      case False
      with nu 2 show ?thesis
        by (auto simp: prepend_Inr_iff pctChar_pctCodePoint unat_codeunit_bound
            split: if_splits)
    qed
  qed
qed

lemma pctChar_not_surrogate: "pctChar c \<Longrightarrow> \<not> isSurrogate c"
  using uriUnescaped_not_surrogate [of c]
  by (auto simp: pctChar_def isSurrogate_def isLeadingSurrogate_def isTrailingSurrogate_def)

lemma encodeURIComponent_result_wellFormed:
  "encodeURIComponent s = Inr r \<Longrightarrow> isWellFormed r"
  by (rule isWellFormed_no_surrogates)
     (auto dest!: encodeURIComponent_pctChar simp: list_all_iff pctChar_not_surrogate)

section \<open>Escaping and quoting a string\<close>

text \<open>
  The two calls of \<^verbatim>\<open>replace\<close> of line 41 together: every backslash becomes two
  backslashes, every double quote a backslash and a double quote, and every other code
  unit stays.
\<close>

lemma escape_append:
  "replaceQuote (replaceBackslash (v @ w)) =
     replaceQuote (replaceBackslash v) @ replaceQuote (replaceBackslash w)"
  by (simp add: replaceQuote_def replaceBackslash_def)

lemma escape_unit:
  "replaceQuote (replaceBackslash [c]) =
     (if c = 0x5C then [0x5C, 0x5C] else if c = 0x22 then [0x5C, 0x22] else [c])"
  by (simp add: replaceQuote_def replaceBackslash_def)

lemma escape_one_pass: "replaceQuote (replaceBackslash s) = concat (map escapeUnit s)"
  by (induction s) (simp_all add: replaceQuote_def replaceBackslash_def escapeUnit_def)

lemma build_Equal_JString:
  "build nts (new_RSQLFilterExpression f (OpEnum Equal) (JString s) opts) =
     prepend (f @ lit ''=in='') (encodeURIComponent (quote (replaceQuote (replaceBackslash s))))"
  by (simp add: build_def new_RSQLFilterExpression_def prepend_prepend)

lemma isWellFormed_snoc:
  "\<not> isSurrogate q \<Longrightarrow> isWellFormed (s @ [q]) \<longleftrightarrow> isWellFormed s"
proof (induction s rule: isWellFormed.induct)
  case 1
  then show ?case by (simp add: isSurrogate_def)
next
  case (2 c cs)
  then show ?case
    by (cases cs) (auto simp: isSurrogate_def)
qed

lemma isWellFormed_concat_map_iff:
  assumes "\<And>c. isSurrogate c \<Longrightarrow> f c = [c]"
    and "\<And>c. \<not> isSurrogate c \<Longrightarrow> list_all (\<lambda>d. \<not> isSurrogate d) (f c)"
    and "\<And>c. f c \<noteq> []"
  shows "isWellFormed (concat (map f s)) \<longleftrightarrow> isWellFormed s"
proof (induction s rule: isWellFormed.induct)
  case 1
  then show ?case by simp
next
  case (2 c cs)
  have pre: "isWellFormed (xs @ ys) \<longleftrightarrow> isWellFormed ys"
    if "list_all (\<lambda>d. \<not> isSurrogate d) xs" for xs ys
    using that by (induction xs) (auto simp: isSurrogate_def)
  show ?case
  proof (cases "isLeadingSurrogate c")
    case True
    then have c: "f c = [c]" by (simp add: assms(1) isSurrogate_def)
    show ?thesis
    proof (cases cs)
      case Nil
      with True c show ?thesis by simp
    next
      case (Cons d ds)
      show ?thesis
      proof (cases "isTrailingSurrogate d")
        case t: True
        then have "f d = [d]" by (simp add: assms(1) isSurrogate_def)
        with True c Cons t 2(1) [OF True Cons] show ?thesis by simp
      next
        case nt: False
        have "\<exists>x xs. f d @ concat (map f ds) = x # xs \<and> \<not> isTrailingSurrogate x"
        proof (cases "isSurrogate d")
          case True
          then have "f d = [d]" by (rule assms(1))
          with nt show ?thesis by simp
        next
          case False
          from assms(3) [of d] obtain y ys where y: "f d = y # ys"
            by (cases "f d") auto
          with assms(2) [OF False] have "\<not> isTrailingSurrogate y"
            by (simp add: isSurrogate_def)
          with y show ?thesis by simp
        qed
        then obtain x xs where x: "f d @ concat (map f ds) = x # xs"
          "\<not> isTrailingSurrogate x"
          by blast
        then have "\<not> isWellFormed (c # f d @ concat (map f ds))"
          using True by simp
        with True c Cons nt show ?thesis by simp
      qed
    qed
  next
    case False
    show ?thesis
    proof (cases "isTrailingSurrogate c")
      case True
      then have "f c = [c]" by (simp add: assms(1) isSurrogate_def)
      with True False show ?thesis by simp
    next
      case nt: False
      with False have "\<not> isSurrogate c" by (simp add: isSurrogate_def)
      from pre [OF assms(2) [OF this]] False nt 2(2) [OF False] show ?thesis
        by simp
    qed
  qed
qed

lemma isWellFormed_escaped_iff:
  "isWellFormed (quote (replaceQuote (replaceBackslash s))) \<longleftrightarrow> isWellFormed s"
proof -
  have ns: "\<not> isSurrogate (0x22 :: codeunit)" "\<not> isSurrogate (0x5C :: codeunit)"
    by (simp_all add: isSurrogate_def isLeadingSurrogate_def isTrailingSurrogate_def)
  have "isWellFormed (concat (map escapeUnit s)) \<longleftrightarrow> isWellFormed s"
    by (rule isWellFormed_concat_map_iff) (auto simp: escapeUnit_def ns)
  moreover have "isWellFormed (quote v) \<longleftrightarrow> isWellFormed v" for v
    using isWellFormed_snoc [OF ns(1), of "0x22 # v"] ns(1)
    by (simp add: quote_def isSurrogate_def)
  ultimately show ?thesis by (simp add: escape_one_pass)
qed

lemma encodeURIComponent_returns:
  "isWellFormed s \<Longrightarrow> \<exists>r. encodeURIComponent s = Inr r \<and> isWellFormed r"
  using encodeURIComponent_returns_iff [of s] encodeURIComponent_result_wellFormed by blast


lemma encodeURIComponent_raises_iff:
  "encodeURIComponent s = Inl URIError \<longleftrightarrow> \<not> isWellFormed s"
proof
  assume "encodeURIComponent s = Inl URIError"
  then have "\<not> (\<exists>r. encodeURIComponent s = Inr r)" by simp
  then show "\<not> isWellFormed s" by (simp only: encodeURIComponent_returns_iff not_False_eq_True)
next
  assume "\<not> isWellFormed s"
  then have "\<not> (\<exists>r. encodeURIComponent s = Inr r)"
    by (simp only: encodeURIComponent_returns_iff not_False_eq_True)
  then obtain x where x: "encodeURIComponent s = Inl x"
    by (cases "encodeURIComponent s") auto
  from encodeURIComponent_raises_URIError [OF x] x show "encodeURIComponent s = Inl URIError"
    by simp
qed

lemma encodeURIComponent_escaped_example:
  "encodeURIComponent (quote (replaceQuote (replaceBackslash [0x61, 0x22, 0x62, 0x5C, 0x63]))) =
     Inr (lit ''%22a%5C%22b%5C%5Cc%22'')"
  by (simp add: replaceQuote_def replaceBackslash_def encode_eval)

section \<open>The Equal operator on a string\<close>

text \<open>
  C1, as the claim states it, fails: on a string value with an unpaired surrogate, here
  the lone leading surrogate \<^verbatim>\<open>\uD800\<close> followed by \<^verbatim>\<open>a\<close>, \<^verbatim>\<open>build\<close> with the
  operator \<^verbatim>\<open>Equal\<close> yields no string: \<^verbatim>\<open>encodeURIComponent\<close> raises
  \<^verbatim>\<open>URIError\<close>.
\<close>

theorem C1_leading_surrogate_counterexample:
  "build intToString
     (new_RSQLFilterExpression (lit ''code'') (OpEnum Equal) (JString [0xD800, 0x61])
        defaultOptions) = Inl URIError"
  by (simp add: build_Equal_JString replaceQuote_def replaceBackslash_def encode_eval)

text \<open>
  C1, amended. For every field \<open>f\<close> and every string value \<open>v\<close> without an unpaired
  surrogate, \<^verbatim>\<open>build\<close> on an expression constructed with the operator \<^verbatim>\<open>Equal\<close>
  returns \<open>f\<close>, then the token \<^verbatim>\<open>=in=\<close>, then the percent-encoding of the escaped
  value wrapped in double quotes; on a value with an unpaired surrogate it raises
  \<^verbatim>\<open>URIError\<close>. The quotes are there because a string value sets \<^verbatim>\<open>shouldQuote\<close>.
  The escaped value is the value with every backslash doubled and a backslash put before
  every double quote: escaping goes code unit by code unit, a backslash gives two
  backslashes, a double quote gives a backslash and a double quote, any other code unit
  gives itself. In particular the field \<^verbatim>\<open>code\<close> with the value \<^verbatim>\<open>abc\<close> builds to
  \<^verbatim>\<open>code=in=\<close> followed by the percent-encoding of \<^verbatim>\<open>"abc"\<close>, which is
  \<^verbatim>\<open>%22abc%22\<close>, and with the value \<^verbatim>\<open>a"b\c\<close> to
  \<^verbatim>\<open>code=in=%22a%5C%22b%5C%5Cc%22\<close>.
\<close>

theorem C1_equal_on_string:
  "(isWellFormed v \<longrightarrow>
      (\<exists>e. encodeURIComponent (quote (replaceQuote (replaceBackslash v))) = Inr e \<and>
           build numToString (new_RSQLFilterExpression f (OpEnum Equal) (JString v) opts) =
             Inr (f @ lit ''=in='' @ e)))
   \<and> (\<not> isWellFormed v \<longrightarrow>
        build numToString (new_RSQLFilterExpression f (OpEnum Equal) (JString v) opts) =
          Inl URIError)
   \<and> buildValue numToString opts (JString v) = Inr (replaceQuote (replaceBackslash v), True)
   \<and> replaceQuote (replaceBackslash (v @ w)) =
       replaceQuote (replaceBackslash v) @ replaceQuote (replaceBackslash w)
   \<and> replaceQuote (replaceBackslash [c]) =
       (if c = 0x5C then [0x5C, 0x5C] else if c = 0x22 then [0x5C, 0x22] else [c])
   \<and> build numToString
       (new_RSQLFilterExpression (lit ''code'') (OpEnum Equal) (JString (lit ''abc'')) opts) =
     Inr (lit ''code=in=%22abc%22'')
   \<and> encodeURIComponent (quote (lit ''abc'')) = Inr (lit ''%22abc%22'')
   \<and> build numToString
       (new_RSQLFilterExpression (lit ''code'') (OpEnum Equal)
          (JString [0x61, 0x22, 0x62, 0x5C, 0x63]) opts) =
     Inr (lit ''code=in=%22a%5C%22b%5C%5Cc%22'')"
proof -
  have returns: "isWellFormed v \<longrightarrow>
      (\<exists>e. encodeURIComponent (quote (replaceQuote (replaceBackslash v))) = Inr e \<and>
           build numToString (new_RSQLFilterExpression f (OpEnum Equal) (JString v) opts) =
             Inr (f @ lit ''=in='' @ e))"
  proof
    assume "isWellFormed v"
    then have "isWellFormed (quote (replaceQuote (replaceBackslash v)))"
      by (simp add: isWellFormed_escaped_iff)
    from encodeURIComponent_returns [OF this]
    show "\<exists>e. encodeURIComponent (quote (replaceQuote (replaceBackslash v))) = Inr e \<and>
           build numToString (new_RSQLFilterExpression f (OpEnum Equal) (JString v) opts) =
             Inr (f @ lit ''=in='' @ e)"
      by (auto simp: build_Equal_JString prepend_def)
  qed
  have raises: "\<not> isWellFormed v \<longrightarrow>
        build numToString (new_RSQLFilterExpression f (OpEnum Equal) (JString v) opts) =
          Inl URIError"
  proof
    assume "\<not> isWellFormed v"
    then have "\<not> isWellFormed (quote (replaceQuote (replaceBackslash v)))"
      by (simp add: isWellFormed_escaped_iff)
    then have "encodeURIComponent (quote (replaceQuote (replaceBackslash v))) = Inl URIError"
      by (simp add: encodeURIComponent_raises_iff)
    then show "build numToString (new_RSQLFilterExpression f (OpEnum Equal) (JString v) opts) =
          Inl URIError"
      by (simp add: build_Equal_JString prepend_def)
  qed
  have valueString:
    "buildValue numToString opts (JString v) = Inr (replaceQuote (replaceBackslash v), True)"
    by simp
  have abc: "build numToString
       (new_RSQLFilterExpression (lit ''code'') (OpEnum Equal) (JString (lit ''abc'')) opts) =
     Inr (lit ''code=in=%22abc%22'')"
    by (simp add: build_Equal_JString escape_abc encodeURIComponent_quoted_abc prepend_def
        lit_append [symmetric])
  have escaped: "build numToString
       (new_RSQLFilterExpression (lit ''code'') (OpEnum Equal)
          (JString [0x61, 0x22, 0x62, 0x5C, 0x63]) opts) =
     Inr (lit ''code=in=%22a%5C%22b%5C%5Cc%22'')"
    by (simp only: build_Equal_JString encodeURIComponent_escaped_example)
       (simp add: prepend_def lit_append [symmetric])
  from returns raises valueString escape_append [of v w] escape_unit [of c] abc
    encodeURIComponent_quoted_abc escaped
  show ?thesis
    by (intro conjI) assumption+
qed

theorem C1_equal_on_string_witness:
  "isWellFormed (lit ''50% off'')
   \<and> build intToString
       (new_RSQLFilterExpression (lit ''label'') (OpEnum Equal) (JString (lit ''50% off''))
          defaultOptions) = Inr (lit ''label=in=%2250%25%20off%22'')
   \<and> \<not> isWellFormed [0xDFFF]
   \<and> build intToString
       (new_RSQLFilterExpression (lit ''label'') (OpEnum Equal) (JString [0xDFFF])
          defaultOptions) = Inl URIError"
proof -
  have w: "isWellFormed (lit ''50% off'')"
    by (rule isWellFormed_lit)
  have e: "encodeURIComponent (quote (replaceQuote (replaceBackslash (lit ''50% off'')))) =
       Inr (lit ''%2250%25%20off%22'')"
    by (simp add: replaceQuote_def replaceBackslash_def encode_eval)
  from C1_equal_on_string [where v = "lit ''50% off''" and numToString = intToString
      and f = "lit ''label''" and opts = defaultOptions] w e
  have b: "build intToString
       (new_RSQLFilterExpression (lit ''label'') (OpEnum Equal) (JString (lit ''50% off''))
          defaultOptions) = Inr (lit ''label=in=%2250%25%20off%22'')"
    by (auto simp: lit_append [symmetric])
  have n: "\<not> isWellFormed [0xDFFF]"
    by (simp add: isLeadingSurrogate_def isTrailingSurrogate_def)
  with C1_equal_on_string [where v = "[0xDFFF]" and numToString = intToString
      and f = "lit ''label''" and opts = defaultOptions]
  have r: "build intToString
       (new_RSQLFilterExpression (lit ''label'') (OpEnum Equal) (JString [0xDFFF])
          defaultOptions) = Inl URIError"
    by blast
  from w b n r show ?thesis by (intro conjI) assumption+
qed

section \<open>The elements of an array\<close>

lemma asQString_Inr_iff: "asQString r = Inr q \<longleftrightarrow> (\<exists>s. r = Inr s \<and> q = QString s)"
  by (auto simp: asQString_def split: sum.splits)

lemma asQString_Inl_iff: "asQString r = Inl e \<longleftrightarrow> r = Inl e"
  by (auto simp: asQString_def split: sum.splits)


lemma quoteElement_returns_iff: "(\<exists>q. quoteElement nts i = Inr q) \<longleftrightarrow> elemEncodable i"
proof (cases i)
  case (EString s)
  then show ?thesis
    using encodeURIComponent_returns_iff [of "quote (replaceQuote (replaceBackslash s))"]
    by (simp add: asQString_Inr_iff isWellFormed_escaped_iff)
next
  case (ENumber n)
  then show ?thesis by simp
next
  case (EBoolean b)
  then show ?thesis
    by (cases b)
       (simp_all add: asQString_def encodeURIComponent_quoted_true
          encodeURIComponent_quoted_false)
next
  case ENull
  then show ?thesis by (simp add: asQString_def encodeURIComponent_quoted_null)
next
  case EUndefined
  have "isWellFormed (quote (lit ''undefined''))"
    by (simp add: isWellFormed_quote isWellFormed_lit)
  from encodeURIComponent_returns [OF this] EUndefined show ?thesis
    by (auto simp: asQString_Inr_iff)
qed

lemma quoteElement_raises_URIError: "quoteElement nts i = Inl e \<Longrightarrow> e = URIError"
  by (cases i) (auto simp: asQString_Inl_iff dest: encodeURIComponent_raises_URIError)

lemma quoteElement_raises: "\<not> elemEncodable i \<Longrightarrow> quoteElement nts i = Inl URIError"
  using quoteElement_returns_iff [of nts i] quoteElement_raises_URIError [of nts i]
  by (cases "quoteElement nts i") auto

lemma mapRaising_quoteElement_returns_all:
  "list_all elemEncodable xs \<Longrightarrow> \<exists>qs. mapRaising (quoteElement nts) xs = Inr qs"
proof (induction xs)
  case Nil
  then show ?case by simp
next
  case (Cons x xs)
  then obtain qs where "mapRaising (quoteElement nts) xs = Inr qs" by auto
  moreover from Cons.prems quoteElement_returns_iff [of nts x]
  obtain q where "quoteElement nts x = Inr q" by auto
  ultimately show ?case by simp
qed

lemma mapRaising_quoteElement_raises:
  "\<not> list_all elemEncodable xs \<Longrightarrow> mapRaising (quoteElement nts) xs = Inl URIError"
proof (induction xs)
  case Nil
  then show ?case by simp
next
  case (Cons x xs)
  show ?case
  proof (cases "elemEncodable x")
    case True
    with quoteElement_returns_iff [of nts x] obtain q where "quoteElement nts x = Inr q"
      by auto
    moreover from True Cons have "mapRaising (quoteElement nts) xs = Inl URIError" by simp
    ultimately show ?thesis by simp
  next
    case False
    then show ?thesis by (simp add: quoteElement_raises)
  qed
qed

lemma elemEncodable_filter:
  "list_all elemEncodable (filter (\<lambda>i. i \<noteq> EUndefined) xs) \<longleftrightarrow> list_all elemEncodable xs"
  by (induction xs) auto

lemma buildValue_array_returns:
  "list_all elemEncodable xs \<Longrightarrow> \<exists>t. buildValue nts opts (JArray xs) = Inr (t, False)"
  using mapRaising_quoteElement_returns_all [of "filter (\<lambda>i. i \<noteq> EUndefined) xs" nts]
  by (auto simp: elemEncodable_filter)

lemma buildValue_array_raises:
  "\<not> list_all elemEncodable xs \<Longrightarrow> buildValue nts opts (JArray xs) = Inl URIError"
  using mapRaising_quoteElement_raises [of "filter (\<lambda>i. i \<noteq> EUndefined) xs" nts]
  by (simp add: elemEncodable_filter)

lemma quoteElement_escaped_example:
  "quoteElement nts (EString [0x61, 0x22, 0x62, 0x5C, 0x63]) =
     Inr (QString (lit ''%22a%5C%22b%5C%5Cc%22''))"
  by (simp add: encodeURIComponent_escaped_example asQString_def)

lemma quoteElement_space_example:
  "quoteElement nts (EString (lit ''x y'')) = Inr (QString (lit ''%22x%20y%22''))"
  by (simp add: asQString_def replaceQuote_def replaceBackslash_def encode_eval)

lemma quoteElement_false_example:
  "quoteElement nts (EBoolean False) = Inr (QString (lit ''%22false%22''))"
  by (simp add: asQString_def encodeURIComponent_quoted_false)

lemma quoteElement_null_example:
  "quoteElement nts ENull = Inr (QString (lit ''%22null%22''))"
  by (simp add: asQString_def encodeURIComponent_quoted_null)

text \<open>
  C4, as the claim states it, fails on a boolean element: \<^verbatim>\<open>true\<close> percent-encoded as it
  is would be \<^verbatim>\<open>true\<close>, and the source gives \<^verbatim>\<open>%22true%22\<close>, the percent-encoding of
  the element wrapped in double quotes.
\<close>

theorem C4_boolean_element_counterexample:
  "buildValue intToString defaultOptions (JArray [EBoolean True]) =
     Inr (lit ''%22true%22'', False)
   \<and> encodeURIComponent (lit ''true'') = Inr (lit ''true'')
   \<and> buildValue intToString defaultOptions (JArray [EBoolean True]) \<noteq> Inr (lit ''true'', False)"
  by (simp add: encodeURIComponent_quoted_true encodeURIComponent_true asQString_def)
     (simp add: lit_def)

text \<open>
  C4, amended. The value string of an array is built element by element: an
  \<^verbatim>\<open>undefined\<close> element is dropped; a number contributes its text, not encoded; a string
  is escaped (every backslash doubled, a backslash put before every double quote),
  wrapped in double quotes and percent-encoded; a boolean and \<^verbatim>\<open>null\<close> are turned into
  text, wrapped in double quotes and percent-encoded; the contributions are joined with
  a comma and the joined result is not quoted (\<^verbatim>\<open>shouldQuote\<close> is false). This is what
  happens when no string element has an unpaired surrogate; when one has,
  \<^verbatim>\<open>encodeURIComponent\<close> raises \<^verbatim>\<open>URIError\<close> and there is no value string. So the
  array of the string \<^verbatim>\<open>a"b\c\<close>, \<^verbatim>\<open>undefined\<close>, a number \<open>n\<close>, \<^verbatim>\<open>false\<close>,
  \<^verbatim>\<open>null\<close> and the string \<^verbatim>\<open>x y\<close> gives \<^verbatim>\<open>%22a%5C%22b%5C%5Cc%22\<close>, the text of
  \<open>n\<close>, \<^verbatim>\<open>%22false%22\<close>, \<^verbatim>\<open>%22null%22\<close> and \<^verbatim>\<open>%22x%20y%22\<close>, with a comma
  between two of them.
\<close>

theorem C4_array_elements:
  "buildValue nts opts (JArray []) = Inr ([], False)
   \<and> buildValue nts opts (JArray (xs @ EUndefined # ys)) = buildValue nts opts (JArray (xs @ ys))
   \<and> buildValue nts opts (JArray (ENumber n # ys)) =
       (case buildValue nts opts (JArray ys) of
          Inl e \<Rightarrow> Inl e
        | Inr (rest, sq) \<Rightarrow>
            Inr (if filter (\<lambda>i. i \<noteq> EUndefined) ys = [] then nts n
                 else nts n @ lit '','' @ rest, False))
   \<and> buildValue nts opts (JArray (EString s # ys)) =
       (case encodeURIComponent (quote (replaceQuote (replaceBackslash s))) of
          Inl e \<Rightarrow> Inl e
        | Inr t \<Rightarrow>
            (case buildValue nts opts (JArray ys) of
               Inl e \<Rightarrow> Inl e
             | Inr (rest, sq) \<Rightarrow>
                 Inr (if filter (\<lambda>i. i \<noteq> EUndefined) ys = [] then t
                      else t @ lit '','' @ rest, False)))
   \<and> buildValue nts opts (JArray (EBoolean b # ys)) =
       (case buildValue nts opts (JArray ys) of
          Inl e \<Rightarrow> Inl e
        | Inr (rest, sq) \<Rightarrow>
            Inr (if filter (\<lambda>i. i \<noteq> EUndefined) ys = []
                 then (if b then lit ''%22true%22'' else lit ''%22false%22'')
                 else (if b then lit ''%22true%22'' else lit ''%22false%22'') @ lit '','' @ rest,
                 False))
   \<and> buildValue nts opts (JArray (ENull # ys)) =
       (case buildValue nts opts (JArray ys) of
          Inl e \<Rightarrow> Inl e
        | Inr (rest, sq) \<Rightarrow>
            Inr (if filter (\<lambda>i. i \<noteq> EUndefined) ys = [] then lit ''%22null%22''
                 else lit ''%22null%22'' @ lit '','' @ rest, False))
   \<and> replaceQuote (replaceBackslash (v @ w)) =
       replaceQuote (replaceBackslash v) @ replaceQuote (replaceBackslash w)
   \<and> replaceQuote (replaceBackslash [c]) =
       (if c = 0x5C then [0x5C, 0x5C] else if c = 0x22 then [0x5C, 0x22] else [c])
   \<and> (if list_all elemEncodable zs
       then \<exists>t. buildValue nts opts (JArray zs) = Inr (t, False)
       else buildValue nts opts (JArray zs) = Inl URIError)
   \<and> buildValue nts opts
       (JArray [EString [0x61, 0x22, 0x62, 0x5C, 0x63], EUndefined, ENumber n, EBoolean False,
                ENull, EString (lit ''x y'')]) =
     Inr (lit ''%22a%5C%22b%5C%5Cc%22,'' @ nts n @ lit '',%22false%22,%22null%22,%22x%20y%22'',
          False)"
proof -
  have e: "buildValue nts opts (JArray []) = Inr ([], False)"
    by simp
  have u: "buildValue nts opts (JArray (xs @ EUndefined # ys)) =
      buildValue nts opts (JArray (xs @ ys))"
    by (rule buildValue_array_undefined)
  have n: "buildValue nts opts (JArray (ENumber n # ys)) =
       (case buildValue nts opts (JArray ys) of
          Inl e \<Rightarrow> Inl e
        | Inr (rest, sq) \<Rightarrow>
            Inr (if filter (\<lambda>i. i \<noteq> EUndefined) ys = [] then nts n
                 else nts n @ lit '','' @ rest, False))"
    by (subst buildValue_array_Cons)
       (simp_all del: buildValue.simps split: sum.splits prod.splits)
  have s: "buildValue nts opts (JArray (EString s # ys)) =
       (case encodeURIComponent (quote (replaceQuote (replaceBackslash s))) of
          Inl e \<Rightarrow> Inl e
        | Inr t \<Rightarrow>
            (case buildValue nts opts (JArray ys) of
               Inl e \<Rightarrow> Inl e
             | Inr (rest, sq) \<Rightarrow>
                 Inr (if filter (\<lambda>i. i \<noteq> EUndefined) ys = [] then t
                      else t @ lit '','' @ rest, False)))"
    by (subst buildValue_array_Cons)
       (simp_all add: asQString_def del: buildValue.simps split: sum.splits prod.splits)
  have b: "buildValue nts opts (JArray (EBoolean b # ys)) =
       (case buildValue nts opts (JArray ys) of
          Inl e \<Rightarrow> Inl e
        | Inr (rest, sq) \<Rightarrow>
            Inr (if filter (\<lambda>i. i \<noteq> EUndefined) ys = []
                 then (if b then lit ''%22true%22'' else lit ''%22false%22'')
                 else (if b then lit ''%22true%22'' else lit ''%22false%22'') @ lit '','' @ rest,
                 False))"
    by (subst buildValue_array_Cons)
       (simp_all add: asQString_def encodeURIComponent_quoted_true
          encodeURIComponent_quoted_false del: buildValue.simps split: sum.splits prod.splits)
  have z: "buildValue nts opts (JArray (ENull # ys)) =
       (case buildValue nts opts (JArray ys) of
          Inl e \<Rightarrow> Inl e
        | Inr (rest, sq) \<Rightarrow>
            Inr (if filter (\<lambda>i. i \<noteq> EUndefined) ys = [] then lit ''%22null%22''
                 else lit ''%22null%22'' @ lit '','' @ rest, False))"
    by (subst buildValue_array_Cons)
       (simp_all add: asQString_def encodeURIComponent_quoted_null
          del: buildValue.simps split: sum.splits prod.splits)
  have r: "if list_all elemEncodable zs
       then \<exists>t. buildValue nts opts (JArray zs) = Inr (t, False)
       else buildValue nts opts (JArray zs) = Inl URIError"
    using buildValue_array_returns [of zs nts opts] buildValue_array_raises [of zs nts opts]
    by (simp del: buildValue.simps)
  have i: "buildValue nts opts
       (JArray [EString [0x61, 0x22, 0x62, 0x5C, 0x63], EUndefined, ENumber n, EBoolean False,
                ENull, EString (lit ''x y'')]) =
     Inr (lit ''%22a%5C%22b%5C%5Cc%22,'' @ nts n @ lit '',%22false%22,%22null%22,%22x%20y%22'',
          False)"
  proof -
    have "mapRaising (quoteElement nts)
        [EString [0x61, 0x22, 0x62, 0x5C, 0x63], ENumber n, EBoolean False, ENull,
         EString (lit ''x y'')] =
      Inr [QString (lit ''%22a%5C%22b%5C%5Cc%22''), QNumber n, QString (lit ''%22false%22''),
           QString (lit ''%22null%22''), QString (lit ''%22x%20y%22'')]"
      by (simp only: mapRaising.simps quoteElement_escaped_example quoteElement_space_example
          quoteElement_false_example quoteElement_null_example quoteElement.simps(1)
          sum.case)
    then show ?thesis
      by (simp add: lit_def del: quoteElement.simps mapRaising.simps)
  qed
  from e u n s b z escape_append [of v w] escape_unit [of c] r i show ?thesis
    by (intro conjI) assumption+
qed

section \<open>Zero padding and dates\<close>

lemma isDigit_decDigit: "n < 10 \<Longrightarrow> isDigit (decDigit n)"
  by (simp add: decDigit_def isDigit_def word_le_nat_alt unat_plus_of_nat)

lemma length_fixedDigits: "length (fixedDigits k n) = k"
  by (induction k arbitrary: n) simp_all

lemma isDigit_fixedDigits: "list_all isDigit (fixedDigits k n)"
  by (induction k arbitrary: n) (simp_all add: isDigit_decDigit)

lemma isDigit_decimal: "list_all isDigit (decimal n)"
proof (induction n rule: decimal.induct)
  case (1 n)
  show ?case
  proof (cases "n < 10")
    case True
    then show ?thesis by (subst decimal.simps) (simp add: isDigit_decDigit)
  next
    case False
    with 1 show ?thesis
      by (subst decimal.simps) (simp add: isDigit_decDigit)
  qed
qed

lemma fixedDigits_zero: "fixedDigits k 0 = replicate k 0x30"
  by (induction k) (simp_all add: decDigit_def replicate_append_same)

lemma padLoop_replicate: "padLoop s k = replicate (k - length s) 0x30 @ s"
proof (induction s k rule: padLoop.induct)
  case (1 s k)
  show ?case
  proof (cases "length s < k")
    case True
    then have "k - length s = Suc (k - Suc (length s))" by simp
    with 1 True show ?thesis
      by (subst padLoop.simps) (simp add: replicate_append_same)
  next
    case False
    then show ?thesis by (subst padLoop.simps) simp
  qed
qed

lemma length_decimal_Suc: "\<not> n < 10 \<Longrightarrow> length (decimal n) = Suc (length (decimal (n div 10)))"
  by (subst decimal.simps) simp

lemma decimal_padded:
  "n < 10 ^ k \<Longrightarrow> 0 < k \<Longrightarrow> replicate (k - length (decimal n)) 0x30 @ decimal n = fixedDigits k n"
proof (induction k arbitrary: n)
  case 0
  then show ?case by simp
next
  case (Suc j)
  show ?case
  proof (cases "n < 10")
    case True
    then have "decimal n = [decDigit n]" by (subst decimal.simps) simp
    with True show ?thesis by (simp add: fixedDigits_zero replicate_append_same)
  next
    case False
    with Suc.prems have j: "0 < j" by (cases j) simp_all
    from Suc.prems have d: "n div 10 < 10 ^ j"
      by (simp add: less_mult_imp_div_less mult.commute)
    have "replicate (j - length (decimal (n div 10))) 0x30 @ decimal (n div 10) =
        fixedDigits j (n div 10)"
      by (rule Suc.IH [OF d j])
    moreover have "decimal n = decimal (n div 10) @ [decDigit (n mod 10)]"
      using False by (subst decimal.simps) simp
    ultimately show ?thesis
      using False by (simp add: length_decimal_Suc)
  qed
qed

lemma numberToString_fixed:
  "0 \<le> i \<Longrightarrow> i < 10 ^ k \<Longrightarrow> 0 < k \<Longrightarrow> numberToString (Num i) k = fixedDigits k (nat i)"
proof -
  assume i: "0 \<le> i" "i < 10 ^ k" and k: "0 < k"
  from i have "nat i < 10 ^ k"
    by (simp add: nat_less_iff)
  from decimal_padded [OF this k] i show ?thesis
    by (simp add: numberToString_def padLoop_replicate)
qed

lemma length_decimal_lower: "10 ^ j \<le> n \<Longrightarrow> j < length (decimal n)"
proof (induction j arbitrary: n)
  case 0
  then show ?case by (subst decimal.simps) simp
next
  case (Suc j)
  have "(1::nat) \<le> 10 ^ j" by simp
  then have "(10::nat) \<le> 10 ^ Suc j" by simp
  with Suc.prems have "\<not> n < 10" by linarith
  moreover from Suc.prems have "10 ^ j \<le> n div 10" by simp
  ultimately show ?case using Suc.IH [of "n div 10"]
    by (simp add: length_decimal_Suc)
qed

lemma numberToString_long:
  "10 ^ k \<le> i \<Longrightarrow> numberToString (Num i) k = decimal (nat i)"
proof -
  assume i: "10 ^ k \<le> i"
  have "(0::int) \<le> 10 ^ k" by simp
  with i have "0 \<le> i" by linarith
  moreover from i have "10 ^ k \<le> nat i"
    by (simp add: le_nat_iff calculation)
  from length_decimal_lower [OF this] have "k - length (decimal (nat i)) = 0" by simp
  ultimately show ?thesis
    by (simp add: numberToString_def padLoop_replicate)
qed

lemma fixedDigits_numeral:
  "fixedDigits (numeral k) n = fixedDigits (pred_numeral k) (n div 10) @ [decDigit (n mod 10)]"
proof -
  have "numeral k = Suc (pred_numeral k)" by (rule numeral_eq_Suc)
  then show ?thesis by (simp only: fixedDigits.simps)
qed

lemma fixedDigits_1: "fixedDigits 1 n = [decDigit (n mod 10)]"
  by (simp add: One_nat_def del: One_nat_def [symmetric])

lemma join3: "join sep [a, b, c] = a @ sep @ b @ sep @ c"
  by simp

lemma buildDateString_valid:
  assumes "0 \<le> y" "y \<le> 9999" "0 \<le> m" "m \<le> 11" "1 \<le> dd" "dd \<le> 31"
  shows "join (lit ''-'') [numberToString (Num y) 4, numberToString (plus1 (Num m)) 2,
           numberToString (Num dd) 2] =
         fixedDigits 4 (nat y) @ lit ''-'' @ fixedDigits 2 (nat (m + 1)) @ lit ''-'' @
         fixedDigits 2 (nat dd)"
  using assms numberToString_fixed [of y 4] numberToString_fixed [of "m + 1" 2]
    numberToString_fixed [of dd 2]
  by simp

lemma buildTimestamp_valid:
  assumes "fieldsInRange d"
  shows "buildTimestamp (ValidDate d) =
     lit ''T'' @ fixedDigits 2 (nat (utcHours d)) @ lit '':'' @
     fixedDigits 2 (nat (utcMinutes d)) @ lit '':'' @ fixedDigits 2 (nat (utcSeconds d)) @
     lit ''.'' @ fixedDigits 3 (nat (utcMilliseconds d)) @ lit ''Z''"
  using assms numberToString_fixed [of "utcHours d" 2] numberToString_fixed [of "utcMinutes d" 2]
    numberToString_fixed [of "utcSeconds d" 2] numberToString_fixed [of "utcMilliseconds d" 3]
  by (simp add: buildTimestamp_def fieldsInRange_def)


text \<open>
  Outside the ranges of the statement below \<^verbatim>\<open>numberToString\<close> does not keep the
  width that its comment promises ("ensuring the total number of digits is as
  specified"): a number with more digits than the width is written in full, a negative
  number is padded in front of its sign, and an invalid date gives \<^verbatim>\<open>NaN\<close> for every
  field.
\<close>

lemma numberToString_five_digits: "numberToString (Num 10000) 4 = lit ''10000''"
  by (simp add: numberToString_def padLoop.simps decimal.simps decDigit_def lit_def)

lemma numberToString_negative: "numberToString (Num (- 1)) 4 = lit ''00-1''"
  by (simp add: numberToString_def padLoop.simps decimal.simps decDigit_def lit_def)

lemma buildDateString_invalid: "buildDateString InvalidDate useUTC = lit ''0NaN-NaN-NaN''"
  by (simp add: buildDateString_def numberToString_def padLoop.simps lit_def)

text \<open>The value string of a date.\<close>

lemma buildValue_date_local:
  assumes "fieldsInRange d" "0 \<le> fullYear d" "fullYear d \<le> 9999"
    "\<not> includeTimestamp optionsObject"
  shows "buildValue nts (Some optionsObject) (JDate (ValidDate d)) =
     Inr (fixedDigits 4 (nat (fullYear d)) @ lit ''-'' @ fixedDigits 2 (nat (month d + 1)) @
          lit ''-'' @ fixedDigits 2 (nat (date d)), True)"
  using assms buildDateString_valid [of "fullYear d" "month d" "date d"]
  by (simp add: buildDateString_def fieldsInRange_def del: join.simps)

lemma buildValue_date_utc:
  assumes "fieldsInRange d" "0 \<le> utcFullYear d" "utcFullYear d \<le> 9999"
    "includeTimestamp optionsObject"
  shows "buildValue nts (Some optionsObject) (JDate (ValidDate d)) =
     Inr (fixedDigits 4 (nat (utcFullYear d)) @ lit ''-'' @
          fixedDigits 2 (nat (utcMonth d + 1)) @ lit ''-'' @ fixedDigits 2 (nat (utcDate d)) @
          lit ''T'' @ fixedDigits 2 (nat (utcHours d)) @ lit '':'' @
          fixedDigits 2 (nat (utcMinutes d)) @ lit '':'' @
          fixedDigits 2 (nat (utcSeconds d)) @ lit ''.'' @
          fixedDigits 3 (nat (utcMilliseconds d)) @ lit ''Z'', True)"
  using assms buildDateString_valid [of "utcFullYear d" "utcMonth d" "utcDate d"]
    buildTimestamp_valid [OF assms(1)]
  by (simp add: buildDateString_def fieldsInRange_def del: join.simps)

text \<open>What \<^verbatim>\<open>encodeURIComponent\<close> makes of a quoted date.\<close>

lemma isDigit_uriUnescaped: "isDigit c \<Longrightarrow> uriUnescaped c"
  by (simp add: isDigit_def uriUnescaped_def)

lemma uriUnescaped_fixedDigits: "list_all uriUnescaped (fixedDigits k n)"
  using isDigit_fixedDigits [of k n] by (auto simp: list_all_iff isDigit_uriUnescaped)

lemma uriUnescaped_date_letters:
  "list_all uriUnescaped (lit ''-'')" "list_all uriUnescaped (lit ''T'')"
  "list_all uriUnescaped (lit ''.'')" "list_all uriUnescaped (lit ''Z'')"
  by (simp_all add: lit_def uriUnescaped_def)

lemma encodeURIComponent_unescaped_append:
  "list_all uriUnescaped a \<Longrightarrow> encodeURIComponent (a @ b) = prepend a (encodeURIComponent b)"
proof (induction a)
  case Nil
  then show ?case by (simp add: prepend_def split: sum.splits)
next
  case (Cons c a)
  then show ?case by (simp add: prepend_prepend)
qed

lemma encodeURIComponent_quote_mark:
  "encodeURIComponent (0x22 # s) = prepend (lit ''%22'') (encodeURIComponent s)"
  by (simp add: encode_eval)

lemma encodeURIComponent_colon:
  "encodeURIComponent (0x3A # s) = prepend (lit ''%3A'') (encodeURIComponent s)"
  by (simp add: encode_eval)

lemma encodeURIComponent_quoted_unescaped:
  assumes "list_all uriUnescaped t"
  shows "encodeURIComponent (quote t) = Inr (lit ''%22'' @ t @ lit ''%22'')"
proof -
  have "encodeURIComponent (t @ [0x22]) = Inr (t @ lit ''%22'')"
    by (simp add: encodeURIComponent_unescaped_append [OF assms] encode_eval)
  then show ?thesis
    by (simp add: encode_eval)
qed

lemma encodeURIComponent_quoted_timestamp:
  assumes "list_all uriUnescaped p" "list_all uriUnescaped q" "list_all uriUnescaped r"
  shows "encodeURIComponent (quote (p @ lit '':'' @ q @ lit '':'' @ r)) =
     Inr (lit ''%22'' @ p @ lit ''%3A'' @ q @ lit ''%3A'' @ r @ lit ''%22'')"
proof -
  have c: "lit '':'' = [0x3A]" by (simp add: lit_def)
  have "encodeURIComponent (r @ [0x22]) = Inr (r @ lit ''%22'')"
    by (simp add: encodeURIComponent_unescaped_append [OF assms(3)]
        encode_eval)
  then have "encodeURIComponent (q @ 0x3A # r @ [0x22]) = Inr (q @ lit ''%3A'' @ r @ lit ''%22'')"
    by (simp add: encodeURIComponent_unescaped_append [OF assms(2)] encode_eval)
  then have "encodeURIComponent (p @ 0x3A # q @ 0x3A # r @ [0x22]) =
      Inr (p @ lit ''%3A'' @ q @ lit ''%3A'' @ r @ lit ''%22'')"
    by (simp add: encodeURIComponent_unescaped_append [OF assms(1)] encode_eval)
  then show ?thesis
    by (simp add: c encode_eval)
qed

lemma quotedForm_unescaped:
  "quotedForm opr = Some (token, before, after) \<Longrightarrow>
     list_all uriUnescaped before \<and> list_all uriUnescaped after"
  by (cases opr) (auto simp: lit_def uriUnescaped_def)

lemma build_quoted:
  assumes "buildValue nts opts v = Inr (valueString, True)"
    and "quotedForm opr = Some (token, before, after)"
    and "encodeURIComponent (quote (before @ valueString @ after)) = Inr encoded"
  shows "build nts (new_RSQLFilterExpression f (OpEnum opr) v opts) = Inr (f @ token @ encoded)"
  using assms
  by (cases opr) (auto simp: build_def new_RSQLFilterExpression_def prepend_def)

lemma build_unquoted:
  assumes "buildValue nts opts v = Inr (valueString, shouldQuote)"
    and "unquotedForm opr = Some (pre, post)"
  shows "build nts (new_RSQLFilterExpression f (OpEnum opr) v opts) =
     Inr (f @ pre @ valueString @ post)"
  using assms
  by (cases opr)
     (auto simp: build_def new_RSQLFilterExpression_def prepend_def followedBy_def
        encodeURIComponent_tokens)

text \<open>
  C5, as the claim states it, fails: under a comparison operator, here
  \<^verbatim>\<open>GreaterThan\<close> on the date of the examples, \<^verbatim>\<open>build\<close> does not render the date
  quoted. The value string \<^verbatim>\<open>2019-01-05\<close> follows the percent-encoded operator as it
  is, without double quotes and without their percent-encoding \<^verbatim>\<open>%22\<close>.
\<close>

theorem C5_unquoted_comparison_counterexample:
  "build intToString
     (new_RSQLFilterExpression (lit ''d'') (OpEnum GreaterThan) (JDate (ValidDate exampleDate))
        defaultOptions) = Inr (lit ''d%3E2019-01-05'')
   \<and> buildValue intToString defaultOptions (JDate (ValidDate exampleDate)) =
       Inr (lit ''2019-01-05'', True)"
  by (simp add: exampleDate_def defaultOptions_def buildDateString_def numberToString_def
      padLoop.simps decimal.simps decDigit_def build_def new_RSQLFilterExpression_def
      followedBy_def encode_eval)

text \<open>
  C5, amended. For a valid date whose fields are in their ranges and whose year is from 0
  to 9999, and an options object, the value string is the year, the month and the day of
  the local calendar as \<^verbatim>\<open>YYYY-MM-DD\<close> (\<^verbatim>\<open>includeTimestamp\<close> false), or those of the
  UTC calendar followed by \<^verbatim>\<open>T\<close>, the UTC time of day as \<^verbatim>\<open>HH:mm:ss.SSS\<close> and
  \<^verbatim>\<open>Z\<close> (\<^verbatim>\<open>includeTimestamp\<close> true). The year has exactly four digits, month, day,
  hours, minutes and seconds exactly two and the milliseconds three, with leading zeros.
  Under \<^verbatim>\<open>Equal\<close>, \<^verbatim>\<open>NotEqual\<close> and the five pattern operators \<^verbatim>\<open>build\<close> renders
  the date quoted: the field, the token of the operator, and the value string (between
  the asterisks of a pattern operator) in double quotes, percent-encoded, so that the
  quotes are \<^verbatim>\<open>%22\<close> and the colons of a timestamp \<^verbatim>\<open>%3A\<close>. Under the four
  comparison operators, \<^verbatim>\<open>In\<close> and \<^verbatim>\<open>NotIn\<close> \<^verbatim>\<open>build\<close> renders the value string
  as it is, without quotes: after the field and the percent-encoded operator, or in the
  parentheses of \<^verbatim>\<open>=in=\<close> and \<^verbatim>\<open>=out=\<close>.
\<close>

theorem C5_date_value:
  "(\<forall>k n. length (fixedDigits k n) = k \<and> list_all isDigit (fixedDigits k n)) \<and>
   (fieldsInRange d \<and> 0 \<le> fullYear d \<and> fullYear d \<le> 9999 \<and>
    \<not> includeTimestamp optionsObject \<longrightarrow>
      buildValue nts (Some optionsObject) (JDate (ValidDate d)) =
        Inr (fixedDigits 4 (nat (fullYear d)) @ lit ''-'' @
                fixedDigits 2 (nat (month d + 1)) @ lit ''-'' @ fixedDigits 2 (nat (date d)), True) \<and>
      (quotedForm opr = Some (token, before, after) \<longrightarrow>
         build nts (new_RSQLFilterExpression f (OpEnum opr) (JDate (ValidDate d))
                      (Some optionsObject)) =
           Inr (f @ token @ lit ''%22'' @ before @
                fixedDigits 4 (nat (fullYear d)) @ lit ''-'' @
                fixedDigits 2 (nat (month d + 1)) @ lit ''-'' @ fixedDigits 2 (nat (date d)) @
                after @ lit ''%22'')) \<and>
      (unquotedForm opr = Some (pre, post) \<longrightarrow>
         build nts (new_RSQLFilterExpression f (OpEnum opr) (JDate (ValidDate d))
                      (Some optionsObject)) =
           Inr (f @ pre @
                fixedDigits 4 (nat (fullYear d)) @ lit ''-'' @
                fixedDigits 2 (nat (month d + 1)) @ lit ''-'' @ fixedDigits 2 (nat (date d)) @
                post))) \<and>
   (fieldsInRange d \<and> 0 \<le> utcFullYear d \<and> utcFullYear d \<le> 9999 \<and>
    includeTimestamp optionsObject \<longrightarrow>
      buildValue nts (Some optionsObject) (JDate (ValidDate d)) =
        Inr (fixedDigits 4 (nat (utcFullYear d)) @ lit ''-'' @
                fixedDigits 2 (nat (utcMonth d + 1)) @ lit ''-'' @
                fixedDigits 2 (nat (utcDate d)) @
                lit ''T'' @ fixedDigits 2 (nat (utcHours d)) @ lit '':'' @
                fixedDigits 2 (nat (utcMinutes d)) @ lit '':'' @
                fixedDigits 2 (nat (utcSeconds d)) @ lit ''.'' @
                fixedDigits 3 (nat (utcMilliseconds d)) @ lit ''Z'', True) \<and>
      (quotedForm opr = Some (token, before, after) \<longrightarrow>
         build nts (new_RSQLFilterExpression f (OpEnum opr) (JDate (ValidDate d))
                      (Some optionsObject)) =
           Inr (f @ token @ lit ''%22'' @ before @
                fixedDigits 4 (nat (utcFullYear d)) @ lit ''-'' @
                fixedDigits 2 (nat (utcMonth d + 1)) @ lit ''-'' @
                fixedDigits 2 (nat (utcDate d)) @
                lit ''T'' @ fixedDigits 2 (nat (utcHours d)) @ lit ''%3A'' @
                fixedDigits 2 (nat (utcMinutes d)) @ lit ''%3A'' @
                fixedDigits 2 (nat (utcSeconds d)) @ lit ''.'' @
                fixedDigits 3 (nat (utcMilliseconds d)) @ lit ''Z'' @
                after @ lit ''%22'')) \<and>
      (unquotedForm opr = Some (pre, post) \<longrightarrow>
         build nts (new_RSQLFilterExpression f (OpEnum opr) (JDate (ValidDate d))
                      (Some optionsObject)) =
           Inr (f @ pre @
                fixedDigits 4 (nat (utcFullYear d)) @ lit ''-'' @
                fixedDigits 2 (nat (utcMonth d + 1)) @ lit ''-'' @
                fixedDigits 2 (nat (utcDate d)) @
                lit ''T'' @ fixedDigits 2 (nat (utcHours d)) @ lit '':'' @
                fixedDigits 2 (nat (utcMinutes d)) @ lit '':'' @
                fixedDigits 2 (nat (utcSeconds d)) @ lit ''.'' @
                fixedDigits 3 (nat (utcMilliseconds d)) @ lit ''Z'' @
                post)))"
proof (intro conjI impI allI)
  fix k n
  show "length (fixedDigits k n) = k" by (rule length_fixedDigits)
  show "list_all isDigit (fixedDigits k n)" by (rule isDigit_fixedDigits)
next
  assume h: "fieldsInRange d \<and> 0 \<le> fullYear d \<and> fullYear d \<le> 9999 \<and>
    \<not> includeTimestamp optionsObject"
  then have v: "buildValue nts (Some optionsObject) (JDate (ValidDate d)) =
        Inr (fixedDigits 4 (nat (fullYear d)) @ lit ''-'' @
                fixedDigits 2 (nat (month d + 1)) @ lit ''-'' @ fixedDigits 2 (nat (date d)), True)"
    by (intro buildValue_date_local) simp_all
  show "buildValue nts (Some optionsObject) (JDate (ValidDate d)) =
        Inr (fixedDigits 4 (nat (fullYear d)) @ lit ''-'' @
                fixedDigits 2 (nat (month d + 1)) @ lit ''-'' @ fixedDigits 2 (nat (date d)), True)"
    by (rule v)
  have t: "list_all uriUnescaped (fixedDigits 4 (nat (fullYear d)) @ lit ''-'' @
                fixedDigits 2 (nat (month d + 1)) @ lit ''-'' @ fixedDigits 2 (nat (date d)))"
    by (simp add: uriUnescaped_fixedDigits uriUnescaped_date_letters)
  {
    assume qf: "quotedForm opr = Some (token, before, after)"
    from quotedForm_unescaped [OF qf] t
    have "list_all uriUnescaped (before @ (fixedDigits 4 (nat (fullYear d)) @ lit ''-'' @
                fixedDigits 2 (nat (month d + 1)) @ lit ''-'' @ fixedDigits 2 (nat (date d))) @ after)"
      by simp
    from build_quoted [OF v qf encodeURIComponent_quoted_unescaped [OF this]]
    show "build nts (new_RSQLFilterExpression f (OpEnum opr) (JDate (ValidDate d))
                      (Some optionsObject)) =
           Inr (f @ token @ lit ''%22'' @ before @
                fixedDigits 4 (nat (fullYear d)) @ lit ''-'' @
                fixedDigits 2 (nat (month d + 1)) @ lit ''-'' @ fixedDigits 2 (nat (date d)) @
                after @ lit ''%22'')"
      by simp
  }
  {
    assume "unquotedForm opr = Some (pre, post)"
    from build_unquoted [OF v this]
    show "build nts (new_RSQLFilterExpression f (OpEnum opr) (JDate (ValidDate d))
                      (Some optionsObject)) =
           Inr (f @ pre @
                fixedDigits 4 (nat (fullYear d)) @ lit ''-'' @
                fixedDigits 2 (nat (month d + 1)) @ lit ''-'' @ fixedDigits 2 (nat (date d)) @
                post)"
      by simp
  }
next
  assume h: "fieldsInRange d \<and> 0 \<le> utcFullYear d \<and> utcFullYear d \<le> 9999 \<and>
    includeTimestamp optionsObject"
  then have v: "buildValue nts (Some optionsObject) (JDate (ValidDate d)) =
        Inr (fixedDigits 4 (nat (utcFullYear d)) @ lit ''-'' @
                fixedDigits 2 (nat (utcMonth d + 1)) @ lit ''-'' @
                fixedDigits 2 (nat (utcDate d)) @
                lit ''T'' @ fixedDigits 2 (nat (utcHours d)) @ lit '':'' @
                fixedDigits 2 (nat (utcMinutes d)) @ lit '':'' @
                fixedDigits 2 (nat (utcSeconds d)) @ lit ''.'' @
                fixedDigits 3 (nat (utcMilliseconds d)) @ lit ''Z'', True)"
    by (intro buildValue_date_utc) simp_all
  show "buildValue nts (Some optionsObject) (JDate (ValidDate d)) =
        Inr (fixedDigits 4 (nat (utcFullYear d)) @ lit ''-'' @
                fixedDigits 2 (nat (utcMonth d + 1)) @ lit ''-'' @
                fixedDigits 2 (nat (utcDate d)) @
                lit ''T'' @ fixedDigits 2 (nat (utcHours d)) @ lit '':'' @
                fixedDigits 2 (nat (utcMinutes d)) @ lit '':'' @
                fixedDigits 2 (nat (utcSeconds d)) @ lit ''.'' @
                fixedDigits 3 (nat (utcMilliseconds d)) @ lit ''Z'', True)"
    by (rule v)
  have p: "list_all uriUnescaped (fixedDigits 4 (nat (utcFullYear d)) @ lit ''-'' @
             fixedDigits 2 (nat (utcMonth d + 1)) @ lit ''-'' @
             fixedDigits 2 (nat (utcDate d)) @ lit ''T'' @ fixedDigits 2 (nat (utcHours d)))"
    by (simp add: uriUnescaped_fixedDigits uriUnescaped_date_letters)
  have r: "list_all uriUnescaped (fixedDigits 2 (nat (utcSeconds d)) @ lit ''.'' @
             fixedDigits 3 (nat (utcMilliseconds d)) @ lit ''Z'')"
    by (simp add: uriUnescaped_fixedDigits uriUnescaped_date_letters)
  {
    assume qf: "quotedForm opr = Some (token, before, after)"
    from quotedForm_unescaped [OF qf] p r
    have "list_all uriUnescaped (before @ fixedDigits 4 (nat (utcFullYear d)) @ lit ''-'' @
             fixedDigits 2 (nat (utcMonth d + 1)) @ lit ''-'' @
             fixedDigits 2 (nat (utcDate d)) @ lit ''T'' @ fixedDigits 2 (nat (utcHours d)))"
      and "list_all uriUnescaped ((fixedDigits 2 (nat (utcSeconds d)) @ lit ''.'' @
             fixedDigits 3 (nat (utcMilliseconds d)) @ lit ''Z'') @ after)"
      by simp_all
    from encodeURIComponent_quoted_timestamp [OF this(1) uriUnescaped_fixedDigits this(2),
        where k1 = 2 and n1 = "nat (utcMinutes d)"]
    have "encodeURIComponent (quote (before @ (fixedDigits 4 (nat (utcFullYear d)) @ lit ''-'' @
                fixedDigits 2 (nat (utcMonth d + 1)) @ lit ''-'' @
                fixedDigits 2 (nat (utcDate d)) @
                lit ''T'' @ fixedDigits 2 (nat (utcHours d)) @ lit '':'' @
                fixedDigits 2 (nat (utcMinutes d)) @ lit '':'' @
                fixedDigits 2 (nat (utcSeconds d)) @ lit ''.'' @
                fixedDigits 3 (nat (utcMilliseconds d)) @ lit ''Z'') @ after)) =
      Inr (lit ''%22'' @ before @
                fixedDigits 4 (nat (utcFullYear d)) @ lit ''-'' @
                fixedDigits 2 (nat (utcMonth d + 1)) @ lit ''-'' @
                fixedDigits 2 (nat (utcDate d)) @
                lit ''T'' @ fixedDigits 2 (nat (utcHours d)) @ lit ''%3A'' @
                fixedDigits 2 (nat (utcMinutes d)) @ lit ''%3A'' @
                fixedDigits 2 (nat (utcSeconds d)) @ lit ''.'' @
                fixedDigits 3 (nat (utcMilliseconds d)) @ lit ''Z'' @
                after @ lit ''%22'')"
      by simp
    from build_quoted [OF v qf this]
    show "build nts (new_RSQLFilterExpression f (OpEnum opr) (JDate (ValidDate d))
                      (Some optionsObject)) =
           Inr (f @ token @ lit ''%22'' @ before @
                fixedDigits 4 (nat (utcFullYear d)) @ lit ''-'' @
                fixedDigits 2 (nat (utcMonth d + 1)) @ lit ''-'' @
                fixedDigits 2 (nat (utcDate d)) @
                lit ''T'' @ fixedDigits 2 (nat (utcHours d)) @ lit ''%3A'' @
                fixedDigits 2 (nat (utcMinutes d)) @ lit ''%3A'' @
                fixedDigits 2 (nat (utcSeconds d)) @ lit ''.'' @
                fixedDigits 3 (nat (utcMilliseconds d)) @ lit ''Z'' @
                after @ lit ''%22'')"
      by simp
  }
  {
    assume "unquotedForm opr = Some (pre, post)"
    from build_unquoted [OF v this]
    show "build nts (new_RSQLFilterExpression f (OpEnum opr) (JDate (ValidDate d))
                      (Some optionsObject)) =
           Inr (f @ pre @
                fixedDigits 4 (nat (utcFullYear d)) @ lit ''-'' @
                fixedDigits 2 (nat (utcMonth d + 1)) @ lit ''-'' @
                fixedDigits 2 (nat (utcDate d)) @
                lit ''T'' @ fixedDigits 2 (nat (utcHours d)) @ lit '':'' @
                fixedDigits 2 (nat (utcMinutes d)) @ lit '':'' @
                fixedDigits 2 (nat (utcSeconds d)) @ lit ''.'' @
                fixedDigits 3 (nat (utcMilliseconds d)) @ lit ''Z'' @
                post)"
      by simp
  }
qed

theorem C5_date_value_witness:
  "fieldsInRange exampleDate
   \<and> buildValue intToString (Some \<lparr>includeTimestamp = False\<rparr>) (JDate (ValidDate exampleDate)) =
       Inr (lit ''2019-01-05'', True)
   \<and> build intToString
       (new_RSQLFilterExpression (lit ''d'') (OpEnum Equal) (JDate (ValidDate exampleDate))
          (Some \<lparr>includeTimestamp = False\<rparr>)) = Inr (lit ''d=in=%222019-01-05%22'')
   \<and> build intToString
       (new_RSQLFilterExpression (lit ''d'') (OpEnum LessThanEqualTo)
          (JDate (ValidDate exampleDate)) (Some \<lparr>includeTimestamp = False\<rparr>)) =
       Inr (lit ''d%3C%3D2019-01-05'')
   \<and> buildValue intToString (Some \<lparr>includeTimestamp = True\<rparr>) (JDate (ValidDate exampleDate)) =
       Inr (lit ''2019-01-04T23:04:05.006Z'', True)
   \<and> build intToString
       (new_RSQLFilterExpression (lit ''d'') (OpEnum NotEqual) (JDate (ValidDate exampleDate))
          (Some \<lparr>includeTimestamp = True\<rparr>)) =
       Inr (lit ''d!=%222019-01-04T23%3A04%3A05.006Z%22'')
   \<and> build intToString
       (new_RSQLFilterExpression (lit ''d'') (OpEnum Contains) (JDate (ValidDate exampleDate))
          (Some \<lparr>includeTimestamp = True\<rparr>)) =
       Inr (lit ''d==%22*2019-01-04T23%3A04%3A05.006Z*%22'')
   \<and> build intToString
       (new_RSQLFilterExpression (lit ''d'') (OpEnum GreaterThan) (JDate (ValidDate exampleDate))
          (Some \<lparr>includeTimestamp = True\<rparr>)) =
       Inr (lit ''d%3E2019-01-04T23:04:05.006Z'')
   \<and> build intToString
       (new_RSQLFilterExpression (lit ''d'') (OpEnum In) (JDate (ValidDate exampleDate))
          (Some \<lparr>includeTimestamp = False\<rparr>)) =
       Inr (lit ''d=in=(2019-01-05)'')"
proof -
  have r: "fieldsInRange exampleDate"
    by (simp add: fieldsInRange_def exampleDate_def)
  have e: "fixedDigits 4 2019 = lit ''2019''" "fixedDigits 2 1 = lit ''01''"
    "fixedDigits 2 5 = lit ''05''" "fixedDigits 2 4 = lit ''04''" "fixedDigits 2 23 = lit ''23''"
    "fixedDigits 2 6 = lit ''06''" "fixedDigits 3 6 = lit ''006''"
    "fixedDigits 2 (Suc 0) = lit ''01''"
    by (simp_all add: fixedDigits_numeral fixedDigits_1 decDigit_def lit_def)
  note local_equal = C5_date_value [where d = exampleDate and nts = intToString
      and optionsObject = "\<lparr>includeTimestamp = False\<rparr>" and opr = Equal
      and token = "lit ''=in=''" and before = "[]" and after = "[]" and f = "lit ''d''"]
  note local_less = C5_date_value [where d = exampleDate and nts = intToString
      and optionsObject = "\<lparr>includeTimestamp = False\<rparr>" and opr = LessThanEqualTo
      and pre = "lit ''%3C%3D''" and post = "[]" and f = "lit ''d''"]
  note local_in = C5_date_value [where d = exampleDate and nts = intToString
      and optionsObject = "\<lparr>includeTimestamp = False\<rparr>" and opr = In
      and pre = "lit ''=in=(''" and post = "lit '')''" and f = "lit ''d''"]
  note utc_not_equal = C5_date_value [where d = exampleDate and nts = intToString
      and optionsObject = "\<lparr>includeTimestamp = True\<rparr>" and opr = NotEqual
      and token = "lit ''!=''" and before = "[]" and after = "[]" and f = "lit ''d''"]
  note utc_contains = C5_date_value [where d = exampleDate and nts = intToString
      and optionsObject = "\<lparr>includeTimestamp = True\<rparr>" and opr = Contains
      and token = "lit ''==''" and before = "lit ''*''" and after = "lit ''*''"
      and f = "lit ''d''"]
  note utc_greater = C5_date_value [where d = exampleDate and nts = intToString
      and optionsObject = "\<lparr>includeTimestamp = True\<rparr>" and opr = GreaterThan
      and pre = "lit ''%3E''" and post = "[]" and f = "lit ''d''"]
  from local_equal r
  have a: "buildValue intToString (Some \<lparr>includeTimestamp = False\<rparr>)
      (JDate (ValidDate exampleDate)) = Inr (lit ''2019-01-05'', True)"
    by (simp add: exampleDate_def e lit_append [symmetric] del: buildValue.simps)
  from local_equal r
  have b: "build intToString
       (new_RSQLFilterExpression (lit ''d'') (OpEnum Equal) (JDate (ValidDate exampleDate))
          (Some \<lparr>includeTimestamp = False\<rparr>)) = Inr (lit ''d=in=%222019-01-05%22'')"
    by (simp add: exampleDate_def e lit_append [symmetric] del: buildValue.simps)
  from local_less r
  have c: "build intToString
       (new_RSQLFilterExpression (lit ''d'') (OpEnum LessThanEqualTo)
          (JDate (ValidDate exampleDate)) (Some \<lparr>includeTimestamp = False\<rparr>)) =
       Inr (lit ''d%3C%3D2019-01-05'')"
    by (simp add: exampleDate_def e lit_append [symmetric] del: buildValue.simps)
  from utc_not_equal r
  have d: "buildValue intToString (Some \<lparr>includeTimestamp = True\<rparr>)
      (JDate (ValidDate exampleDate)) = Inr (lit ''2019-01-04T23:04:05.006Z'', True)"
    by (simp add: exampleDate_def e lit_append [symmetric] del: buildValue.simps)
  from utc_not_equal r
  have f: "build intToString
       (new_RSQLFilterExpression (lit ''d'') (OpEnum NotEqual) (JDate (ValidDate exampleDate))
          (Some \<lparr>includeTimestamp = True\<rparr>)) =
       Inr (lit ''d!=%222019-01-04T23%3A04%3A05.006Z%22'')"
    by (simp add: exampleDate_def e lit_append [symmetric] del: buildValue.simps)
  from utc_contains r
  have g: "build intToString
       (new_RSQLFilterExpression (lit ''d'') (OpEnum Contains) (JDate (ValidDate exampleDate))
          (Some \<lparr>includeTimestamp = True\<rparr>)) =
       Inr (lit ''d==%22*2019-01-04T23%3A04%3A05.006Z*%22'')"
    by (simp add: exampleDate_def e lit_append [symmetric] del: buildValue.simps)
  from utc_greater r
  have h: "build intToString
       (new_RSQLFilterExpression (lit ''d'') (OpEnum GreaterThan) (JDate (ValidDate exampleDate))
          (Some \<lparr>includeTimestamp = True\<rparr>)) =
       Inr (lit ''d%3E2019-01-04T23:04:05.006Z'')"
    by (simp add: exampleDate_def e lit_append [symmetric] del: buildValue.simps)
  from local_in r
  have i: "build intToString
       (new_RSQLFilterExpression (lit ''d'') (OpEnum In) (JDate (ValidDate exampleDate))
          (Some \<lparr>includeTimestamp = False\<rparr>)) =
       Inr (lit ''d=in=(2019-01-05)'')"
    by (simp add: exampleDate_def e lit_append [symmetric] del: buildValue.simps)
  from r a b c d f g h i show ?thesis by (intro conjI) assumption+
qed

section \<open>When build returns\<close>

lemma isDigit_not_surrogate: "isDigit c \<Longrightarrow> \<not> isSurrogate c"
  by (auto simp: isDigit_def isSurrogate_def isLeadingSurrogate_def isTrailingSurrogate_def
      word_le_nat_alt)

lemma String_jsint_no_surrogates: "list_all (\<lambda>c. \<not> isSurrogate c) (String_jsint x)"
proof (cases x)
  case (Num i)
  have "list_all (\<lambda>c. \<not> isSurrogate c) (decimal n)" for n
    using isDigit_decimal [of n] by (auto simp: list_all_iff isDigit_not_surrogate)
  moreover have "\<not> isSurrogate (0x2D :: codeunit)"
    by (simp add: isSurrogate_def isLeadingSurrogate_def isTrailingSurrogate_def)
  ultimately show ?thesis using Num by simp
next
  case NaN
  then show ?thesis by (simp add: lit_no_surrogates)
qed

lemma numberToString_no_surrogates: "list_all (\<lambda>c. \<not> isSurrogate c) (numberToString x k)"
proof -
  have "\<not> isSurrogate (0x30 :: codeunit)"
    by (simp add: isSurrogate_def isLeadingSurrogate_def isTrailingSurrogate_def)
  then show ?thesis
    using String_jsint_no_surrogates [of x]
    by (auto simp: numberToString_def padLoop_replicate list_all_iff)
qed

lemma buildDateString_no_surrogates:
  "list_all (\<lambda>c. \<not> isSurrogate c) (buildDateString d u)"
  using lit_no_surrogates [of "''-''"]
  by (simp add: buildDateString_def Let_def numberToString_no_surrogates)

lemma buildTimestamp_no_surrogates:
  "list_all (\<lambda>c. \<not> isSurrogate c) (buildTimestamp d)"
  using lit_no_surrogates [of "'':''"]
  by (simp add: buildTimestamp_def Let_def numberToString_no_surrogates lit_no_surrogates)

lemma isWellFormed_join:
  "list_all isWellFormed ts \<Longrightarrow> isWellFormed sep \<Longrightarrow> isWellFormed (join sep ts)"
  by (induction sep ts rule: join.induct) (simp_all add: isWellFormed_append)

lemma quoteElement_returns:
  assumes "elemWellFormed nts i"
  shows "\<exists>q. quoteElement nts i = Inr q \<and> isWellFormed (quotedText nts q)"
proof (cases i)
  case (EString s)
  with assms have "isWellFormed (quote (replaceQuote (replaceBackslash s)))"
    by (simp add: isWellFormed_quote isWellFormed_replaceQuote isWellFormed_replaceBackslash)
  from encodeURIComponent_returns [OF this] EString show ?thesis
    by (auto simp: asQString_Inr_iff)
next
  case (ENumber n)
  with assms show ?thesis by simp
next
  case (EBoolean b)
  have "isWellFormed (quote (templateText nts i))"
    using EBoolean by (simp add: isWellFormed_quote isWellFormed_lit)
  from encodeURIComponent_returns [OF this] EBoolean show ?thesis
    by (auto simp: asQString_Inr_iff)
next
  case ENull
  have "isWellFormed (quote (templateText nts i))"
    using ENull by (simp add: isWellFormed_quote isWellFormed_lit)
  from encodeURIComponent_returns [OF this] ENull show ?thesis
    by (auto simp: asQString_Inr_iff)
next
  case EUndefined
  have "isWellFormed (quote (templateText nts i))"
    using EUndefined by (simp add: isWellFormed_quote isWellFormed_lit)
  from encodeURIComponent_returns [OF this] EUndefined show ?thesis
    by (auto simp: asQString_Inr_iff)
qed

lemma mapRaising_quoteElement_returns:
  "list_all (elemWellFormed nts) xs \<Longrightarrow>
     \<exists>qs. mapRaising (quoteElement nts) xs = Inr qs \<and>
       list_all (\<lambda>q. isWellFormed (quotedText nts q)) qs"
proof (induction xs)
  case Nil
  then show ?case by simp
next
  case (Cons x xs)
  then obtain qs where qs: "mapRaising (quoteElement nts) xs = Inr qs"
      "list_all (\<lambda>q. isWellFormed (quotedText nts q)) qs"
    by auto
  from Cons.prems quoteElement_returns [of nts x] obtain q where
    q: "quoteElement nts x = Inr q" "isWellFormed (quotedText nts q)"
    by auto
  from q qs show ?case by simp
qed

lemma operatorSuffix_returns:
  assumes "isWellFormed valueString"
  shows "\<exists>r. operatorSuffix opr valueString shouldQuote = Inr r"
proof -
  have q: "\<exists>r. encodeURIComponent (quote (a @ valueString @ b)) = Inr r"
    if "isWellFormed a" "isWellFormed b" for a b
    using encodeURIComponent_returns [of "quote (a @ valueString @ b)"] assms that
    by (auto simp: isWellFormed_quote isWellFormed_append)
  have p: "\<exists>r. encodeURIComponent valueString = Inr r"
    using encodeURIComponent_returns [OF assms] by auto
  note q0 = q [of "[]" "[]", simplified]
  note q1 = q [of "[]" "lit ''*''", simplified, OF isWellFormed_lit]
  note q2 = q [of "lit ''*''" "[]", simplified, OF isWellFormed_lit]
  note q3 = q [of "lit ''*''" "lit ''*''", OF isWellFormed_lit isWellFormed_lit]
  show ?thesis
    using p q0 q1 q2 q3
    by (cases opr)
       (auto simp: prepend_Inr_iff followedBy_Inr_iff encodeURIComponent_tokens)
qed

lemma operatorSuffix_raises_URIError:
  "operatorSuffix opr valueString shouldQuote = Inl e \<Longrightarrow> e = URIError"
  by (cases opr)
     (auto simp: prepend_Inl_iff followedBy_Inl_iff dest: encodeURIComponent_raises_URIError)

lemma mapRaising_raises:
  "mapRaising f xs = Inl e \<Longrightarrow> \<exists>x \<in> set xs. f x = Inl e"
  by (induction xs) (auto split: sum.splits)

lemma buildValue_returns:
  assumes "valueWellFormed nts v" and "opts \<noteq> None \<or> (\<forall>d. v \<noteq> JDate d)"
  shows "\<exists>vs sq. buildValue nts opts v = Inr (vs, sq) \<and> isWellFormed vs"
proof (cases v)
  case (JString s)
  with assms show ?thesis
    by (auto simp: isWellFormed_replaceQuote isWellFormed_replaceBackslash)
next
  case (JNumber n)
  with assms show ?thesis by auto
next
  case (JBoolean b)
  then show ?thesis by (auto simp: isWellFormed_lit)
next
  case (JArray xs)
  with assms have "list_all (elemWellFormed nts) (filter (\<lambda>i. i \<noteq> EUndefined) xs)"
    by (simp add: list_all_iff)
  from mapRaising_quoteElement_returns [OF this] obtain qs where
    qs: "mapRaising (quoteElement nts) (filter (\<lambda>i. i \<noteq> EUndefined) xs) = Inr qs"
      "list_all (\<lambda>q. isWellFormed (quotedText nts q)) qs"
    by auto
  from qs(2) have "list_all isWellFormed (map (quotedText nts) qs)"
    by (simp add: list_all_iff)
  then have "isWellFormed (join (lit '','') (map (quotedText nts) qs))"
    by (rule isWellFormed_join) (rule isWellFormed_lit)
  with qs(1) JArray show ?thesis by auto
next
  case (JDate d)
  have "isWellFormed (buildDateString d u)" for u
    by (rule isWellFormed_no_surrogates [OF buildDateString_no_surrogates])
  moreover have "isWellFormed (buildTimestamp d)"
    by (rule isWellFormed_no_surrogates [OF buildTimestamp_no_surrogates])
  ultimately show ?thesis using JDate assms(2) by (auto simp: isWellFormed_append)
next
  case JNull
  then show ?thesis by (auto simp: isWellFormed_lit)
next
  case JUndefined
  then show ?thesis by auto
next
  case JObject
  then show ?thesis by auto
qed

text \<open>
  What the computation of the value string raises: \<^verbatim>\<open>TypeError\<close> on a date when there
  are no options, \<^verbatim>\<open>URIError\<close> on an array with a string element that has an unpaired
  surrogate, and nothing else.
\<close>

lemma buildValue_raises:
  assumes "buildValue nts opts v = Inl e"
  shows "(e = TypeError \<and> opts = None \<and> (\<exists>d. v = JDate d)) \<or>
         (e = URIError \<and> (\<exists>xs. v = JArray xs \<and> \<not> list_all elemEncodable xs))"
proof (cases v)
  case (JArray xs)
  show ?thesis
  proof (cases "list_all elemEncodable xs")
    case True
    from buildValue_array_returns [OF True, of nts opts] assms JArray show ?thesis
      by (auto simp del: buildValue.simps)
  next
    case False
    from buildValue_array_raises [OF False, of nts opts] assms JArray False show ?thesis
      by (auto simp del: buildValue.simps)
  qed
next
  case (JDate d)
  with assms show ?thesis by (auto split: option.splits if_splits)
qed (use assms in auto)

lemma build_raises:
  assumes "customOperator this = None" "build nts this = Inl e"
  shows "e = URIError \<or> (e = TypeError \<and> options this = None \<and> (\<exists>d. value this = JDate d))"
proof (cases "buildValue nts (options this) (value this)")
  case (Inl x)
  with assms have "x = e" by (simp add: build_def)
  with buildValue_raises [OF Inl] show ?thesis by auto
next
  case (Inr p)
  with assms have "e = URIError"
    by (auto simp: build_def prepend_Inl_iff split: prod.splits option.splits oparg.splits
        dest: operatorSuffix_raises_URIError)
  then show ?thesis by simp
qed

text \<open>
  C7, as the claim states it, fails: \<^verbatim>\<open>build\<close> raises \<^verbatim>\<open>URIError\<close> on a string
  value that holds an unpaired surrogate, here the single code unit \<^verbatim>\<open>\uD800\<close>, because
  \<^verbatim>\<open>encodeURIComponent\<close> does.
\<close>

theorem C7_lone_surrogate_counterexample:
  "build intToString
     (new_RSQLFilterExpression (lit ''code'') (OpEnum Equal) (JString [0xD800]) defaultOptions) =
   Inl URIError"
  by (simp add: build_def new_RSQLFilterExpression_def defaultOptions_def replaceQuote_def
      replaceBackslash_def encode_eval)

text \<open>
  C7, amended. \<^verbatim>\<open>build\<close> can raise. The computation of the value string raises
  \<^verbatim>\<open>TypeError\<close> on a date when \<^verbatim>\<open>options\<close> is \<^verbatim>\<open>null\<close> or \<^verbatim>\<open>undefined\<close>,
  \<^verbatim>\<open>URIError\<close> on an array with a string element that has an unpaired surrogate, and
  nothing else. Without a custom operator, \<^verbatim>\<open>build\<close> raises nothing but that
  \<^verbatim>\<open>TypeError\<close> and the \<^verbatim>\<open>URIError\<close> of \<^verbatim>\<open>encodeURIComponent\<close>, and it returns
  whenever the strings of the value are well formed and a date has its options. A value
  that matches none of the supported types (\<^verbatim>\<open>undefined\<close>, or any other object) gives
  the empty value string, not quoted, and \<^verbatim>\<open>build\<close> returns the field followed by
  what the operator makes of the empty value string. An expression with neither a
  built-in nor a custom operator builds to the bare field, unless the computation of the
  value string raises. With a custom operator \<^verbatim>\<open>build\<close> computes the value string
  first and raises what that raises; otherwise it returns the field followed by what
  \<^verbatim>\<open>convertToRSQLString\<close> returns, or raises what \<^verbatim>\<open>convertToRSQLString\<close> raises, or
  \<^verbatim>\<open>TypeError\<close> when the object has no such method.
\<close>

theorem C7_build_raises_only_URIError:
  "(buildValue nts (options this) (value this) = Inl e \<longrightarrow>
      (e = TypeError \<and> options this = None \<and> (\<exists>d. value this = JDate d)) \<or>
      (e = URIError \<and> (\<exists>xs. value this = JArray xs \<and> \<not> list_all elemEncodable xs))) \<and>
   (customOperator this = None \<and> build nts this = Inl e \<longrightarrow>
      e = URIError \<or> (e = TypeError \<and> options this = None \<and> (\<exists>d. value this = JDate d))) \<and>
   (options this = None \<and> value this = JDate d \<longrightarrow> build nts this = Inl TypeError) \<and>
   (customOperator this = None \<and> valueWellFormed nts (value this) \<and>
    (options this \<noteq> None \<or> (\<forall>d. value this \<noteq> JDate d)) \<longrightarrow>
      (\<exists>r. build nts this = Inr r)) \<and>
   (customOperator this = None \<and> operator this = Some (OpEnum opr) \<and>
    (value this = JUndefined \<or> value this = JObject) \<longrightarrow>
      buildValue nts (options this) (value this) = Inr ([], False) \<and>
      build nts this = prepend (field this) (operatorSuffix opr [] False) \<and>
      (\<exists>r. build nts this = Inr (field this @ r))) \<and>
   (customOperator this = None \<and> noBuiltinOperator this \<longrightarrow>
      build nts this =
        (case buildValue nts (options this) (value this) of
           Inl x \<Rightarrow> Inl x
         | Inr p \<Rightarrow> Inr (field this))) \<and>
   (customOperator this = Some obj \<longrightarrow>
      build nts this =
        (case buildValue nts (options this) (value this) of
           Inl x \<Rightarrow> Inl x
         | Inr (valueString, shouldQuote) \<Rightarrow>
             (case props obj ''convertToRSQLString'' of
                None \<Rightarrow> Inl TypeError
              | Some convertToRSQLString \<Rightarrow>
                  prepend (field this)
                    (convertToRSQLString (value this) valueString shouldQuote))))"
proof (intro conjI impI)
  assume "buildValue nts (options this) (value this) = Inl e"
  then show "(e = TypeError \<and> options this = None \<and> (\<exists>d. value this = JDate d)) \<or>
      (e = URIError \<and> (\<exists>xs. value this = JArray xs \<and> \<not> list_all elemEncodable xs))"
    by (rule buildValue_raises)
next
  assume "customOperator this = None \<and> build nts this = Inl e"
  then show "e = URIError \<or>
      (e = TypeError \<and> options this = None \<and> (\<exists>d. value this = JDate d))"
    using build_raises [of this nts e] by simp
next
  assume "options this = None \<and> value this = JDate d"
  then show "build nts this = Inl TypeError"
    by (simp add: build_def)
next
  assume a: "customOperator this = None \<and> valueWellFormed nts (value this) \<and>
    (options this \<noteq> None \<or> (\<forall>d. value this \<noteq> JDate d))"
  then obtain vs sq where
    v: "buildValue nts (options this) (value this) = Inr (vs, sq)" "isWellFormed vs"
    using buildValue_returns [of nts "value this" "options this"] by auto
  from operatorSuffix_returns [OF v(2)] a v(1) show "\<exists>r. build nts this = Inr r"
    by (auto simp: build_def prepend_Inr_iff split: option.splits oparg.splits)
next
  assume a: "customOperator this = None \<and> operator this = Some (OpEnum opr) \<and>
    (value this = JUndefined \<or> value this = JObject)"
  then show "buildValue nts (options this) (value this) = Inr ([], False)"
    by auto
  from a show b: "build nts this = prepend (field this) (operatorSuffix opr [] False)"
    by (auto simp: build_def)
  from operatorSuffix_returns [of "[]" opr False] b
  show "\<exists>r. build nts this = Inr (field this @ r)"
    by (auto simp: prepend_def)
next
  assume "customOperator this = None \<and> noBuiltinOperator this"
  then show "build nts this =
        (case buildValue nts (options this) (value this) of
           Inl x \<Rightarrow> Inl x
         | Inr p \<Rightarrow> Inr (field this))"
    by (auto simp: build_def noBuiltinOperator_def prepend_def
        split: option.splits oparg.splits sum.splits)
next
  assume "customOperator this = Some obj"
  then show "build nts this =
        (case buildValue nts (options this) (value this) of
           Inl x \<Rightarrow> Inl x
         | Inr (valueString, shouldQuote) \<Rightarrow>
             (case props obj ''convertToRSQLString'' of
                None \<Rightarrow> Inl TypeError
              | Some convertToRSQLString \<Rightarrow>
                  prepend (field this)
                    (convertToRSQLString (value this) valueString shouldQuote)))"
    by (simp add: build_def prepend_def split: sum.splits prod.splits option.splits)
qed

theorem C7_build_raises_only_URIError_witness:
  "build intToString
     (new_RSQLFilterExpression (lit ''code'') (OpEnum Equal) JUndefined defaultOptions) =
     Inr (lit ''code=in='')
   \<and> build intToString
     (new_RSQLFilterExpression (lit ''code'') (OpEnum Like) JObject defaultOptions) =
     Inr (lit ''code==%22%22'')
   \<and> build intToString
     \<lparr>field = lit ''code'', operator = None, customOperator = None,
      value = JString (lit ''abc''), options = defaultOptions\<rparr> = Inr (lit ''code'')
   \<and> (\<exists>r. build intToString
     (new_RSQLFilterExpression (lit ''code'') (OpEnum Equal) (JString (lit ''abc''))
        defaultOptions) = Inr r)
   \<and> (\<exists>e. build intToString
     (new_RSQLFilterExpression (lit ''code'') (OpEnum Like) (JString [0xDC00])
        defaultOptions) = Inl e \<and> e = URIError)
   \<and> build intToString
     (new_RSQLFilterExpression (lit ''code'') (OpObject exampleCustomOperator)
        (JBoolean True) defaultOptions) = Inr (lit ''code=custom=true'')
   \<and> build intToString
     (new_RSQLFilterExpression (lit ''code'') (OpObject exampleCustomOperator)
        (JArray [EString [0xD800]]) defaultOptions) = Inl URIError
   \<and> build intToString
     (new_RSQLFilterExpression (lit ''code'') (OpEnum Equal) (JDate (ValidDate exampleDate))
        None) = Inl TypeError
   \<and> build intToString
     \<lparr>field = lit ''code'', operator = None, customOperator = Some exampleOtherObject,
      value = JString (lit ''abc''), options = defaultOptions\<rparr> = Inl TypeError"
proof -
  let ?e1 = "new_RSQLFilterExpression (lit ''code'') (OpEnum Equal) JUndefined defaultOptions
    :: int RSQLFilterExpression"
  let ?e2 = "new_RSQLFilterExpression (lit ''code'') (OpEnum Like) JObject defaultOptions
    :: int RSQLFilterExpression"
  let ?e3 = "\<lparr>field = lit ''code'', operator = None, customOperator = None,
      value = JString (lit ''abc''), options = defaultOptions\<rparr> :: int RSQLFilterExpression"
  let ?e4 = "new_RSQLFilterExpression (lit ''code'') (OpEnum Equal) (JString (lit ''abc''))
        defaultOptions :: int RSQLFilterExpression"
  have enc: "encodeURIComponent [] = Inr []"
    "encodeURIComponent (quote []) = Inr (lit ''%22%22'')"
    by (simp_all add: encode_eval)
  have 1: "build intToString ?e1 = Inr (lit ''code=in='')"
    using C7_build_raises_only_URIError [where this = ?e1 and nts = intToString
        and e = URIError and opr = Equal]
    by (simp add: new_RSQLFilterExpression_def enc prepend_def lit_append [symmetric])
  have 2: "build intToString ?e2 = Inr (lit ''code==%22%22'')"
    using C7_build_raises_only_URIError [where this = ?e2 and nts = intToString
        and e = URIError and opr = Like]
    by (simp add: new_RSQLFilterExpression_def enc prepend_def lit_append [symmetric])
  have 3: "build intToString ?e3 = Inr (lit ''code'')"
    using C7_build_raises_only_URIError [where this = ?e3 and nts = intToString
        and e = URIError and opr = Equal]
    by (auto simp: noBuiltinOperator_def)
  have 4: "\<exists>r. build intToString ?e4 = Inr r"
    using C7_build_raises_only_URIError [where this = ?e4 and nts = intToString
        and e = URIError and opr = Equal]
    by (simp add: new_RSQLFilterExpression_def isWellFormed_lit defaultOptions_def)
  let ?e5 = "new_RSQLFilterExpression (lit ''code'') (OpEnum Like) (JString [0xDC00])
        defaultOptions :: int RSQLFilterExpression"
  obtain e where e: "build intToString ?e5 = Inl e"
    by (simp add: build_def new_RSQLFilterExpression_def defaultOptions_def replaceQuote_def
        replaceBackslash_def encode_eval)
  with C7_build_raises_only_URIError [where this = ?e5 and nts = intToString and e = e
      and opr = Like]
  have 5: "\<exists>e. build intToString ?e5 = Inl e \<and> e = URIError"
    by (simp add: new_RSQLFilterExpression_def defaultOptions_def)
  let ?e6 = "new_RSQLFilterExpression (lit ''code'') (OpObject exampleCustomOperator)
        (JBoolean True) defaultOptions :: int RSQLFilterExpression"
  have 6: "build intToString ?e6 = Inr (lit ''code=custom=true'')"
    using C7_build_raises_only_URIError [where this = ?e6 and nts = intToString
        and obj = exampleCustomOperator]
    by (simp add: new_RSQLFilterExpression_def instanceOfCustomOperator_def
        exampleCustomOperator_def prepend_def lit_append [symmetric])
  let ?e7 = "new_RSQLFilterExpression (lit ''code'') (OpObject exampleCustomOperator)
        (JArray [EString [0xD800]]) defaultOptions :: int RSQLFilterExpression"
  have s: "\<not> isWellFormed [0xD800]"
    by (simp add: isLeadingSurrogate_def)
  have 7: "build intToString ?e7 = Inl URIError"
    using C7_build_raises_only_URIError [where this = ?e7 and nts = intToString
        and obj = exampleCustomOperator]
      buildValue_array_raises [of "[EString [0xD800]]" intToString defaultOptions] s
    by (simp add: new_RSQLFilterExpression_def instanceOfCustomOperator_def
        exampleCustomOperator_def del: buildValue.simps)
  let ?e8 = "new_RSQLFilterExpression (lit ''code'') (OpEnum Equal)
        (JDate (ValidDate exampleDate)) None :: int RSQLFilterExpression"
  have 8: "build intToString ?e8 = Inl TypeError"
    using C7_build_raises_only_URIError [where this = ?e8 and nts = intToString
        and d = "ValidDate exampleDate"]
    by (simp add: new_RSQLFilterExpression_def)
  let ?e9 = "\<lparr>field = lit ''code'', operator = None, customOperator = Some exampleOtherObject,
      value = JString (lit ''abc''), options = defaultOptions\<rparr> :: int RSQLFilterExpression"
  have 9: "build intToString ?e9 = Inl TypeError"
    using C7_build_raises_only_URIError [where this = ?e9 and nts = intToString
        and obj = exampleOtherObject]
    by (simp add: exampleOtherObject_def)
  from 1 2 3 4 5 6 7 8 9 show ?thesis by (intro conjI) assumption+
qed

section \<open>The characters of the output\<close>





















section \<open>The round trip of a string value\<close>

lemma hexValue_hexDigit: "n < 16 \<Longrightarrow> hexValue (hexDigit n) = Some n"
  by (simp add: hexValue_def hexDigit_def word_le_nat_alt unat_plus_of_nat)

lemma percentOctets_pctOctet:
  "b < 256 \<Longrightarrow> percentOctets (pctOctet b @ rest) = map_option ((#) b) (percentOctets rest)"
proof -
  assume b: "b < 256"
  then have "b div 16 < 16" "b mod 16 < 16" by simp_all
  then have "hexValue (hexDigit (b div 16)) = Some (b div 16)"
    "hexValue (hexDigit (b mod 16)) = Some (b mod 16)"
    by (simp_all only: hexValue_hexDigit)
  then show ?thesis by (simp add: pctOctet_def)
qed

lemma percentOctets_pctOctets:
  "list_all (\<lambda>b. b < 256) bs \<Longrightarrow>
     percentOctets (concat (map pctOctet bs) @ rest) = map_option ((@) bs) (percentOctets rest)"
proof (induction bs)
  case Nil
  show ?case by (simp add: option.map_ident)
next
  case (Cons b bs)
  then show ?case
    by (simp add: percentOctets_pctOctet option.map_comp comp_def)
qed

lemma percentOctets_pctCodePoint:
  "cp < 0x110000 \<Longrightarrow>
     percentOctets (pctCodePoint cp @ rest) = map_option ((@) (utf8 cp)) (percentOctets rest)"
  unfolding pctCodePoint_def by (rule percentOctets_pctOctets [OF utf8_octets])

lemma uriUnescaped_ascii: "uriUnescaped c \<Longrightarrow> c \<noteq> 0x25 \<and> c < 0x80"
  by (auto simp: uriUnescaped_def word_le_nat_alt word_less_nat_alt)

lemma utf8_ascii: "cp < 0x80 \<Longrightarrow> utf8 cp = [cp]"
  by (simp add: utf8_def)

lemma percentOctets_encodeURIComponent:
  "encodeURIComponent s = Inr r \<Longrightarrow> percentOctets r = Some (octetsOf s)"
proof (induction s arbitrary: r rule: encodeURIComponent.induct)
  case 1
  then show ?case by simp
next
  case (2 c cs)
  show ?case
  proof (cases "uriUnescaped c")
    case True
    from uriUnescaped_ascii [OF True] have "unat c < 0x80"
      by (simp add: word_less_nat_alt)
    with True 2 uriUnescaped_not_surrogate [OF True] uriUnescaped_ascii [OF True]
    show ?thesis
      by (auto simp: prepend_Inr_iff isSurrogate_def utf8_ascii)
  next
    case nu: False
    show ?thesis
    proof (cases "isLeadingSurrogate c")
      case True
      with nu 2 leading_not_trailing [of c] show ?thesis
        by (cases cs)
           (auto simp: prepend_Inr_iff percentOctets_pctCodePoint
             surrogatePairToCodePoint_bound split: if_splits)
    next
      case False
      with nu 2 show ?thesis
        by (auto simp: prepend_Inr_iff percentOctets_pctCodePoint unat_codeunit_bound
            split: if_splits)
    qed
  qed
qed

lemma utf8Decode_two:
  "a < 0x20 \<Longrightarrow> b < 0x40 \<Longrightarrow>
     utf8Decode ([0xC0 + a, 0x80 + b] @ rest) =
       map_option ((@) (codeUnits (a * 0x40 + b))) (utf8Decode rest)"
  by simp

lemma utf8Decode_three:
  "a < 0x10 \<Longrightarrow> b < 0x40 \<Longrightarrow> c < 0x40 \<Longrightarrow>
     utf8Decode ([0xE0 + a, 0x80 + b, 0x80 + c] @ rest) =
       map_option ((@) (codeUnits (a * 0x1000 + b * 0x40 + c))) (utf8Decode rest)"
  by simp

lemma utf8Decode_four:
  "a < 8 \<Longrightarrow> b < 0x40 \<Longrightarrow> c < 0x40 \<Longrightarrow> d < 0x40 \<Longrightarrow>
     utf8Decode ([0xF0 + a, 0x80 + b, 0x80 + c, 0x80 + d] @ rest) =
       map_option ((@) (codeUnits (a * 0x40000 + b * 0x1000 + c * 0x40 + d))) (utf8Decode rest)"
  by simp

lemma split64: "(n::nat) div 64 * 64 + n mod 64 = n"
  by simp

lemma div4096: "(n::nat) div 4096 = n div 64 div 64"
  by (simp add: div_mult2_eq [symmetric])

lemma div262144: "(n::nat) div 262144 = n div 64 div 64 div 64"
  by (simp add: div_mult2_eq [symmetric])

lemma split3: "(n::nat) div 4096 * 4096 + n div 64 mod 64 * 64 + n mod 64 = n"
proof -
  have a: "n div 64 * 64 + n mod 64 = n" by (rule split64)
  have b: "n div 64 div 64 * 64 + n div 64 mod 64 = n div 64" by (rule split64)
  from a b show ?thesis unfolding div4096 by linarith
qed

lemma split4:
  "(n::nat) div 262144 * 262144 + n div 4096 mod 64 * 4096 + n div 64 mod 64 * 64 + n mod 64 = n"
proof -
  have a: "n div 64 * 64 + n mod 64 = n" by (rule split64)
  have b: "n div 64 div 64 * 64 + n div 64 mod 64 = n div 64" by (rule split64)
  have c: "n div 64 div 64 div 64 * 64 + n div 64 div 64 mod 64 = n div 64 div 64"
    by (rule split64)
  from a b c show ?thesis unfolding div262144 div4096 by linarith
qed

lemma utf8Decode_utf8:
  assumes "cp < 0x110000"
  shows "utf8Decode (utf8 cp @ rest) = map_option ((@) (codeUnits cp)) (utf8Decode rest)"
proof -
  consider "cp < 0x80" | "0x80 \<le> cp" "cp < 0x800" | "0x800 \<le> cp" "cp < 0x10000"
    | "0x10000 \<le> cp"
    by linarith
  then show ?thesis
  proof cases
    case 1
    then show ?thesis by (simp add: utf8_def)
  next
    case 2
    then have u: "utf8 cp = [0xC0 + cp div 0x40, 0x80 + cp mod 0x40]"
      by (simp add: utf8_def)
    from 2 have a: "cp div 0x40 < 0x20" by simp
    have b: "cp mod 0x40 < 0x40" by simp
    have "cp div 0x40 * 0x40 + cp mod 0x40 = cp" by simp
    with utf8Decode_two [OF a b, of rest] show ?thesis
      by (simp only: u)
  next
    case 3
    then have u: "utf8 cp = [0xE0 + cp div 0x1000, 0x80 + cp div 0x40 mod 0x40, 0x80 + cp mod 0x40]"
      by (simp add: utf8_def)
    from 3 have a: "cp div 0x1000 < 0x10" by simp
    have b: "cp div 0x40 mod 0x40 < 0x40" and c: "cp mod 0x40 < 0x40" by simp_all
    have "cp div 0x1000 * 0x1000 + cp div 0x40 mod 0x40 * 0x40 + cp mod 0x40 = cp"
      using split3 [of cp] by simp
    with utf8Decode_three [OF a b c, of rest] show ?thesis
      by (simp only: u)
  next
    case 4
    then have u: "utf8 cp = [0xF0 + cp div 0x40000, 0x80 + cp div 0x1000 mod 0x40,
        0x80 + cp div 0x40 mod 0x40, 0x80 + cp mod 0x40]"
      by (simp add: utf8_def)
    from assms have a: "cp div 0x40000 < 8" by simp
    have b: "cp div 0x1000 mod 0x40 < 0x40" and c: "cp div 0x40 mod 0x40 < 0x40"
      and d: "cp mod 0x40 < 0x40" by simp_all
    have "cp div 0x40000 * 0x40000 + cp div 0x1000 mod 0x40 * 0x1000 +
        cp div 0x40 mod 0x40 * 0x40 + cp mod 0x40 = cp"
      using split4 [of cp] by simp
    with utf8Decode_four [OF a b c d, of rest] show ?thesis
      by (simp only: u)
  qed
qed

lemma codeUnits_unat: "codeUnits (unat (c :: codeunit)) = [c]"
  using unsigned_less [of c, where ?'a = nat] by (simp add: codeUnits_def)

lemma codeUnits_pair:
  assumes "isLeadingSurrogate c" "isTrailingSurrogate d"
  shows "codeUnits (surrogatePairToCodePoint c d) = [c, d]"
proof -
  from assms have c: "0xD800 \<le> unat c" "unat c \<le> 0xDBFF" and d: "0xDC00 \<le> unat d" "unat d \<le> 0xDFFF"
    by (simp_all add: isLeadingSurrogate_def isTrailingSurrogate_def word_le_nat_alt)
  define h where "h = unat c - 0xD800"
  define l where "l = unat d - 0xDC00"
  from d have l: "l < 0x400" by (simp add: l_def)
  have cp: "surrogatePairToCodePoint c d = h * 0x400 + l + 0x10000"
    by (simp add: surrogatePairToCodePoint_def h_def l_def)
  from l have "(h * 0x400 + l) div 0x400 = h" "(h * 0x400 + l) mod 0x400 = l"
    by simp_all
  moreover from c have "0xD800 + h = unat c" by (simp add: h_def)
  moreover from d have "0xDC00 + l = unat d" by (simp add: l_def)
  ultimately show ?thesis
    by (simp add: codeUnits_def cp)
qed

lemma utf8Decode_octetsOf: "isWellFormed s \<Longrightarrow> utf8Decode (octetsOf s) = Some s"
proof (induction s rule: isWellFormed.induct)
  case 1
  then show ?case by simp
next
  case (2 c cs)
  show ?case
  proof (cases "isLeadingSurrogate c")
    case True
    with 2 show ?thesis
      by (cases cs)
         (simp_all add: utf8Decode_utf8 surrogatePairToCodePoint_bound codeUnits_pair
           del: utf8Decode.simps)
  next
    case False
    with 2 show ?thesis
      by (simp add: utf8Decode_utf8 unat_codeunit_bound codeUnits_unat del: utf8Decode.simps)
  qed
qed

lemma percentDecode_encodeURIComponent:
  "encodeURIComponent s = Inr r \<Longrightarrow> percentDecode r = Some s"
proof -
  assume r: "encodeURIComponent s = Inr r"
  then have "isWellFormed s"
    using encodeURIComponent_returns_iff [of s] by blast
  with percentOctets_encodeURIComponent [OF r] show ?thesis
    by (simp add: percentDecode_def utf8Decode_octetsOf)
qed

lemma stripQuotes_quote: "stripQuotes (quote s) = Some s"
  by (simp add: stripQuotes_def quote_def)

lemma unescape_escapeUnit: "unescape (escapeUnit c @ rest) = c # unescape rest"
  by (cases rest) (simp_all add: escapeUnit_def)

lemma unescape_escape: "unescape (replaceQuote (replaceBackslash s)) = s"
  unfolding escape_one_pass
  by (induction s) (simp_all add: unescape_escapeUnit)

lemma decodeStringValue_encode:
  "encodeURIComponent (quote (replaceQuote (replaceBackslash s))) = Inr e \<Longrightarrow>
     decodeStringValue e = Some s"
  by (simp add: decodeStringValue_def percentDecode_encodeURIComponent stripQuotes_quote
      unescape_escape)

text \<open>
  C2, as the claim states it, fails: on a string with an unpaired surrogate, here
  \<^verbatim>\<open>a\<close> followed by the lone trailing surrogate \<^verbatim>\<open>\uDC00\<close>, the encoding raises
  \<^verbatim>\<open>URIError\<close> and there is no encoded result to decode.
\<close>

theorem C2_unpaired_surrogate_counterexample:
  "encodeURIComponent (quote (replaceQuote (replaceBackslash [0x61, 0xDC00]))) = Inl URIError
   \<and> build intToString
       (new_RSQLFilterExpression (lit ''code'') (OpEnum Equal) (JString [0x61, 0xDC00])
          defaultOptions) = Inl URIError"
  by (simp add: build_Equal_JString replaceQuote_def replaceBackslash_def encode_eval)

text \<open>
  C2, amended. For every string \<open>s\<close> without an unpaired surrogate, the encoding of a
  string value in \<^verbatim>\<open>build\<close> (backslash to two backslashes, then double quote to
  backslash and double quote, then wrapped in double quotes and percent-encoded) returns,
  and decoding its result (percent-decode, strip the quotes, unescape) gives \<open>s\<close> back;
  so two strings with the same encoding are equal. On a string with an unpaired
  surrogate \<^verbatim>\<open>build\<close> raises \<^verbatim>\<open>URIError\<close>.
\<close>

theorem C2_string_value_round_trip:
  "(isWellFormed s \<longrightarrow>
      (\<exists>e. encodeURIComponent (quote (replaceQuote (replaceBackslash s))) = Inr e \<and>
           build nts (new_RSQLFilterExpression f (OpEnum Equal) (JString s) opts) =
             Inr (f @ lit ''=in='' @ e) \<and>
           decodeStringValue e = Some s)) \<and>
   (isWellFormed s \<and>
    encodeURIComponent (quote (replaceQuote (replaceBackslash s))) =
      encodeURIComponent (quote (replaceQuote (replaceBackslash t))) \<longrightarrow> s = t) \<and>
   (\<not> isWellFormed s \<longrightarrow>
      build nts (new_RSQLFilterExpression f (OpEnum Equal) (JString s) opts) = Inl URIError)"
proof (intro conjI impI)
  assume "isWellFormed s"
  then have "isWellFormed (quote (replaceQuote (replaceBackslash s)))"
    by (simp add: isWellFormed_escaped_iff)
  then obtain e where e: "encodeURIComponent (quote (replaceQuote (replaceBackslash s))) = Inr e"
    using encodeURIComponent_returns by blast
  from e decodeStringValue_encode [OF e]
  show "\<exists>e. encodeURIComponent (quote (replaceQuote (replaceBackslash s))) = Inr e \<and>
           build nts (new_RSQLFilterExpression f (OpEnum Equal) (JString s) opts) =
             Inr (f @ lit ''=in='' @ e) \<and>
           decodeStringValue e = Some s"
    by (simp add: build_Equal_JString prepend_def)
next
  assume a: "isWellFormed s \<and>
    encodeURIComponent (quote (replaceQuote (replaceBackslash s))) =
      encodeURIComponent (quote (replaceQuote (replaceBackslash t)))"
  then have "isWellFormed (quote (replaceQuote (replaceBackslash s)))"
    by (simp add: isWellFormed_escaped_iff)
  then obtain e where e: "encodeURIComponent (quote (replaceQuote (replaceBackslash s))) = Inr e"
    using encodeURIComponent_returns by blast
  with a have e': "encodeURIComponent (quote (replaceQuote (replaceBackslash t))) = Inr e"
    by simp
  from decodeStringValue_encode [OF e] decodeStringValue_encode [OF e'] show "s = t"
    by simp
next
  assume "\<not> isWellFormed s"
  then have "\<not> isWellFormed (quote (replaceQuote (replaceBackslash s)))"
    by (simp add: isWellFormed_escaped_iff)
  then have "\<not> (\<exists>r. encodeURIComponent (quote (replaceQuote (replaceBackslash s))) = Inr r)"
    by (simp only: encodeURIComponent_returns_iff not_False_eq_True)
  then obtain x where x: "encodeURIComponent (quote (replaceQuote (replaceBackslash s))) = Inl x"
    by (cases "encodeURIComponent (quote (replaceQuote (replaceBackslash s)))") auto
  from encodeURIComponent_raises_URIError [OF x] x
  show "build nts (new_RSQLFilterExpression f (OpEnum Equal) (JString s) opts) = Inl URIError"
    by (simp add: build_Equal_JString prepend_def)
qed

theorem C2_string_value_round_trip_witness:
  "isWellFormed exampleString
   \<and> encodeURIComponent (quote (replaceQuote (replaceBackslash exampleString))) =
       Inr (lit ''%22a%5C%22b%5C%5Cc%20%F0%9F%98%80%C3%A9%E2%82%AC%22'')
   \<and> decodeStringValue (lit ''%22a%5C%22b%5C%5Cc%20%F0%9F%98%80%C3%A9%E2%82%AC%22'') =
       Some exampleString
   \<and> \<not> isWellFormed [0xD83D]
   \<and> build intToString
       (new_RSQLFilterExpression (lit ''code'') (OpEnum Equal) (JString [0xD83D])
          defaultOptions) = Inl URIError"
proof -
  have w: "isWellFormed exampleString"
    by (simp add: exampleString_def isLeadingSurrogate_def isTrailingSurrogate_def)
  have e: "encodeURIComponent (quote (replaceQuote (replaceBackslash exampleString))) =
       Inr (lit ''%22a%5C%22b%5C%5Cc%20%F0%9F%98%80%C3%A9%E2%82%AC%22'')"
    by (simp add: exampleString_def replaceQuote_def replaceBackslash_def
        surrogatePairToCodePoint_def encode_eval)
  from C2_string_value_round_trip [of exampleString intToString "lit ''code''" defaultOptions] w e
  have d: "decodeStringValue (lit ''%22a%5C%22b%5C%5Cc%20%F0%9F%98%80%C3%A9%E2%82%AC%22'') =
       Some exampleString"
    by auto
  have n: "\<not> isWellFormed [0xD83D]"
    by (simp add: isLeadingSurrogate_def)
  with C2_string_value_round_trip [of "[0xD83D]" intToString "lit ''code''" defaultOptions]
  have r: "build intToString
       (new_RSQLFilterExpression (lit ''code'') (OpEnum Equal) (JString [0xD83D])
          defaultOptions) = Inl URIError"
    by blast
  with w e d n show ?thesis by (intro conjI) assumption+
qed

section \<open>The repository's tests of RSQLCriteria\<close>

text \<open>
  Every expectation of \<^verbatim>\<open>RSQLCriteria test\<close> holds of the definitions made from the
  specification.
\<close>

lemmas criteria_eval = buildCriteria_def whereSection_def orderBySection_def
  pageSizeSection_def includeTotalCountSection_def pageNumberSection_def
  criteria_and_def criteria_or_def mergeCriteria_def defaultCriteria_def new_RSQLCriteria_def
  emptyFilterList_def addEntry_def containsFilter_def connectiveWord_def directionWord_def
  List.map_filter_def build_def new_RSQLFilterExpression_def defaultOptions_def
  replaceQuote_def replaceBackslash_def decimal.simps decDigit_def buildList_def
  combineFragments_def presentFragments_def asOperand_def inParentheses_def

lemma test_and:
  "buildCriteria intToString (criteria_and criteria1 criteria2) =
     Inr (lit ''$where=(code==%22*a*%22%20and%20description==%22*b*%22)&$orderBy=code%20asc&$pageSize=10&$includeTotalCount=true&$pageNumber=1'')"
  by (simp add: criteria1_def criteria2_def criteria_eval encode_eval)

lemma test_or_blank:
  "buildCriteria intToString (criteria_or criteria1 defaultCriteria) =
     Inr (lit ''$where=code==%22*a*%22&$orderBy=code%20asc&$pageSize=10&$includeTotalCount=true&$pageNumber=1'')"
  by (simp add: criteria1_def criteria2_def criteria_eval encode_eval)

lemma test_or:
  "buildCriteria intToString (criteria_or criteria1 criteria2) =
     Inr (lit ''$where=(code==%22*a*%22%20or%20description==%22*b*%22)&$orderBy=code%20asc&$pageSize=10&$includeTotalCount=true&$pageNumber=1'')"
  by (simp add: criteria1_def criteria2_def criteria_eval encode_eval)

lemma test_empty: "buildCriteria intToString (defaultCriteria :: int RSQLCriteria) = Inr []"
  by (simp add: criteria_eval encode_eval)

lemma test_keywords:
  "buildCriteria intToString
     ((new_RSQLCriteria (lit ''$where'') (lit ''$orderBy'') (lit ''$take'') (lit ''total'')
         (lit ''$skip'') :: int RSQLCriteria)\<lparr>pageSize := Some 10, pageNumber := Some 2\<rparr>) =
     Inr (lit ''$take=10&total=true&$skip=2'')"
  by (simp add: criteria_eval encode_eval)

lemma test_no_total:
  "buildCriteria intToString
     ((defaultCriteria :: int RSQLCriteria)\<lparr>pageSize := Some 10, includeTotalCount := False\<rparr>) =
     Inr (lit ''$pageSize=10'')"
  by (simp add: criteria_eval encode_eval)

lemma test_where:
  "buildCriteria intToString
     (defaultCriteria\<lparr>filters := addEntry AND (equalFilter ''code'' ''abc'') emptyFilterList\<rparr>) =
     Inr (lit ''$where=code=in=%22abc%22'')"
  by (simp add: equalFilter_def criteria_eval encode_eval)

lemma test_orderBy:
  "buildCriteria intToString
     ((defaultCriteria :: int RSQLCriteria)\<lparr>orderBy := [(lit ''code'', Asc)]\<rparr>) =
     Inr (lit ''$orderBy=code%20asc'')"
  by (simp add: criteria_eval encode_eval)

lemma test_where_orderBy:
  "buildCriteria intToString
     (defaultCriteria\<lparr>orderBy := [(lit ''code'', Asc)],
        filters := addEntry AND (equalFilter ''code'' ''abc'') emptyFilterList\<rparr>) =
     Inr (lit ''$where=code=in=%22abc%22&$orderBy=code%20asc'')"
  by (simp add: equalFilter_def criteria_eval encode_eval)

lemma test_orderBy_keyword:
  "buildCriteria intToString
     ((keywordCriteria ''$where'' ''$order'' ''$pageSize'' ''$includeTotalCount'')
        \<lparr>orderBy := [(lit ''code'', Asc)]\<rparr>) =
     Inr (lit ''$order=code%20asc'')"
  by (simp add: keywordCriteria_def criteria_eval encode_eval)

lemma test_where_keyword:
  "buildCriteria intToString
     ((keywordCriteria ''$filter'' ''$orderBy'' ''$pageSize'' ''$includeTotalCount'')
        \<lparr>filters := addEntry AND (equalFilter ''code'' ''abc'') emptyFilterList\<rparr>) =
     Inr (lit ''$filter=code=in=%22abc%22'')"
  by (simp add: keywordCriteria_def equalFilter_def criteria_eval encode_eval)

lemma test_pageSize:
  "buildCriteria intToString ((defaultCriteria :: int RSQLCriteria)\<lparr>pageSize := Some 10\<rparr>) =
     Inr (lit ''$pageSize=10&$includeTotalCount=true'')"
  by (simp add: criteria_eval encode_eval)

lemma test_pageNumber:
  "buildCriteria intToString ((defaultCriteria :: int RSQLCriteria)\<lparr>pageNumber := Some 3\<rparr>) =
     Inr (lit ''$pageNumber=3'')"
  by (simp add: criteria_eval encode_eval)

lemma test_pagination:
  "buildCriteria intToString
     ((defaultCriteria :: int RSQLCriteria)\<lparr>pageSize := Some 10, pageNumber := Some 2\<rparr>) =
     Inr (lit ''$pageSize=10&$includeTotalCount=true&$pageNumber=2'')"
  by (simp add: criteria_eval encode_eval)

lemma test_pageSize_keyword:
  "buildCriteria intToString
     ((keywordCriteria ''$where'' ''$orderBy'' ''$take'' ''$includeTotalCount'')
        \<lparr>pageSize := Some 10\<rparr>) =
     Inr (lit ''$take=10&$includeTotalCount=true'')"
  by (simp add: keywordCriteria_def criteria_eval encode_eval)

lemma test_total_keyword:
  "buildCriteria intToString
     ((keywordCriteria ''$where'' ''$orderBy'' ''$take'' ''total'')\<lparr>pageSize := Some 10\<rparr>) =
     Inr (lit ''$take=10&total=true'')"
  by (simp add: keywordCriteria_def criteria_eval encode_eval)

lemma test_and_blank:
  "buildCriteria intToString (criteria_and criteria1 defaultCriteria) =
     Inr (lit ''$where=code==%22*a*%22&$orderBy=code%20asc&$pageSize=10&$includeTotalCount=true&$pageNumber=1'')"
  by (simp add: criteria1_def criteria_eval encode_eval)


text \<open>
  The parentheses of section 3 of the specification, which the repository's test does
  not reach: a list of two entries that is the whole where clause has none; the same
  list gets them as an entry of a list with another entry, and as one side of a merge;
  an empty nested list leaves no trace.
\<close>

lemma example_two_entries:
  "buildCriteria intToString criteria3 =
     Inr (lit ''$where=code==%22*a*%22%20or%20name==%22*n*%22'')"
  by (simp add: criteria3_def criteria_eval encode_eval)

lemma example_nested_list:
  "buildCriteria intToString
     (defaultCriteria\<lparr>filters :=
        addEntry AND (NestedList (filters criteria3))
          (addEntry AND (equalFilter ''code'' ''abc'') emptyFilterList)\<rparr>) =
     Inr (lit ''$where=code=in=%22abc%22%20and%20(code==%22*a*%22%20or%20name==%22*n*%22)'')"
  by (simp add: criteria3_def equalFilter_def criteria_eval encode_eval)

lemma example_only_nested_list:
  "buildCriteria intToString
     (defaultCriteria\<lparr>filters :=
        addEntry AND (NestedList (filters criteria3)) emptyFilterList\<rparr>) =
     Inr (lit ''$where=code==%22*a*%22%20or%20name==%22*n*%22'')"
  by (simp add: criteria3_def criteria_eval encode_eval)

lemma example_empty_nested_list:
  "buildCriteria intToString
     (defaultCriteria\<lparr>filters :=
        addEntry OR (equalFilter ''code'' ''abc'')
          (addEntry AND (NestedList emptyFilterList) emptyFilterList)\<rparr>) =
     Inr (lit ''$where=code=in=%22abc%22'')"
  by (simp add: equalFilter_def criteria_eval encode_eval)

lemma example_merge_twice:
  "buildCriteria intToString (criteria_or (criteria_and criteria2 criteria2) criteria3) =
     Inr (lit ''$where=((description==%22*b*%22%20and%20description==%22*b*%22)%20or%20(code==%22*a*%22%20or%20name==%22*n*%22))'')"
  by (simp add: criteria2_def criteria3_def criteria_eval encode_eval)

section \<open>Merging two criteria\<close>










text \<open>
  C8. After \<^verbatim>\<open>a.and(b)\<close> or \<^verbatim>\<open>a.or(b)\<close> the order by list, the page size, the page
  number, the total count flag and the five keywords of \<open>a\<close> are what they were, and the
  result (hence what it builds to) depends on nothing of \<open>b\<close> but its filters: replacing
  \<open>b\<close> by any criteria \<open>c\<close> with the filters of \<open>b\<close> changes nothing.
\<close>

theorem C8_merge_keeps_receiver:
  "orderBy (mergeCriteria k a b) = orderBy a \<and>
   pageSize (mergeCriteria k a b) = pageSize a \<and>
   pageNumber (mergeCriteria k a b) = pageNumber a \<and>
   includeTotalCount (mergeCriteria k a b) = includeTotalCount a \<and>
   whereKeyword (mergeCriteria k a b) = whereKeyword a \<and>
   orderByKeyword (mergeCriteria k a b) = orderByKeyword a \<and>
   pageSizeKeyword (mergeCriteria k a b) = pageSizeKeyword a \<and>
   includeTotalCountKeyword (mergeCriteria k a b) = includeTotalCountKeyword a \<and>
   pageNumberKeyword (mergeCriteria k a b) = pageNumberKeyword a \<and>
   mergeCriteria k a b = mergeCriteria k a (c\<lparr>filters := filters b\<rparr>) \<and>
   buildCriteria nts (mergeCriteria k a b) =
     buildCriteria nts (mergeCriteria k a (c\<lparr>filters := filters b\<rparr>)) \<and>
   criteria_and a b = mergeCriteria AND a b \<and> criteria_or a b = mergeCriteria OR a b"
  by (simp add: mergeCriteria_def criteria_and_def criteria_or_def)

end
